theory Spec2Isabelle
  imports Complex_Main "HOL-Library.Sublist"
begin

section \<open>The Weekly Spaceman task board: the Express task API and the board clients\<close>

text \<open>
  The server keeps its tasks in one array and answers four routes on it. A request body is
  whatever \<^verbatim>\<open>express.json()\<close> parsed, and the update route spreads it into the stored
  task, so a task is a JavaScript object with any keys and any JSON values.
\<close>

subsection \<open>JSON values and JavaScript objects\<close>

text \<open>
  A string is its sequence of code units, here those in the range of \<^typ>\<open>char\<close>
  (0 to 255); \<^verbatim>\<open>s.length\<close> is the length of the list. A number is a real: the handlers
  only test a number for zero (truthiness), for its type and against a bound. An object is
  a map from its property names; a property holding \<^verbatim>\<open>undefined\<close> is the same as an
  absent one, so reading a property gives \<open>None\<close> for \<^verbatim>\<open>undefined\<close>.
\<close>

datatype json =
    JNull
  | JBool bool
  | JNum real
  | JStr string
  | JArr "json list"
  | JObj "string \<Rightarrow> json option"

type_synonym obj = "string \<Rightarrow> json option"

type_synonym task = obj

text \<open>\<^verbatim>\<open>if (v)\<close> on a JSON value: \<^verbatim>\<open>null\<close>, \<^verbatim>\<open>false\<close>, \<^verbatim>\<open>0\<close> and \<^verbatim>\<open>""\<close> are falsy.\<close>

fun truthy :: "json \<Rightarrow> bool" where
  "truthy JNull = False"
| "truthy (JBool b) = b"
| "truthy (JNum k) = (k \<noteq> 0)"
| "truthy (JStr s) = (s \<noteq> [])"
| "truthy (JArr xs) = True"
| "truthy (JObj ob) = True"

text \<open>
  \<^verbatim>\<open>String.prototype.trim\<close> removes white space and line terminators from both ends. Among
  the code units 0 to 255 these are TAB, LF, VT, FF, CR, SP and NBSP.
\<close>

definition is_ws :: "char \<Rightarrow> bool" where
  "is_ws c = (c \<in> set [CHR 0x09, CHR 0x0A, CHR 0x0B, CHR 0x0C, CHR 0x0D, CHR 0x20, CHR 0xA0])"

definition trim :: "string \<Rightarrow> string" where
  "trim s = rev (dropWhile is_ws (rev (dropWhile is_ws s)))"

text \<open>A string carries no leading or trailing white space.\<close>

definition trimmed :: "string \<Rightarrow> bool" where
  "trimmed s = (s = [] \<or> (\<not> is_ws (hd s) \<and> \<not> is_ws (last s)))"

text \<open>
  \<^verbatim>\<open>String.prototype.toLowerCase\<close> on the code units 0 to 255: the letters A to Z and the
  Latin-1 capitals (192 to 222 without the multiplication sign 215) move up by 32.
\<close>

definition lower_char :: "char \<Rightarrow> char" where
  "lower_char c =
     (let n = of_char c :: nat
      in if (65 \<le> n \<and> n \<le> 90) \<or> (192 \<le> n \<and> n \<le> 222 \<and> n \<noteq> 215)
         then char_of (n + 32) else c)"

definition toLowerCase :: "string \<Rightarrow> string" where
  "toLowerCase s = map lower_char s"

text \<open>\<^verbatim>\<open>hay.includes(needle)\<close>: \<open>needle\<close> occurs in \<open>hay\<close> as a contiguous run.\<close>

definition str_includes :: "string \<Rightarrow> string \<Rightarrow> bool" where
  "str_includes hay needle = sublist needle hay"

subsection \<open>What the model takes from the JavaScript engine\<close>

text \<open>
  Two results of the engine are parameters of the model, since the handlers only branch on
  them. \<open>date_is_nan v\<close> is \<^verbatim>\<open>isNaN(Date.parse(v))\<close>, and \<open>coerced_gt v n\<close> is \<^verbatim>\<open>v > n\<close> for
  a \<open>v\<close> that is not a number; both are \<open>None\<close> when the conversion of \<open>v\<close> to a primitive
  throws a \<^verbatim>\<open>TypeError\<close>.
\<close>

record js_env =
  date_is_nan :: "json \<Rightarrow> bool option"
  coerced_gt :: "json \<Rightarrow> nat \<Rightarrow> bool option"

text \<open>
  \<^verbatim>\<open>v.length > n\<close>. Reading a property of \<^verbatim>\<open>null\<close> throws; a boolean or a number has no
  \<^verbatim>\<open>length\<close>, and \<^verbatim>\<open>undefined > n\<close> is false; an object answers with its own \<^verbatim>\<open>length\<close>
  property.
\<close>

fun length_gt :: "js_env \<Rightarrow> json \<Rightarrow> nat \<Rightarrow> bool option" where
  "length_gt E JNull n = None"
| "length_gt E (JBool b) n = Some False"
| "length_gt E (JNum k) n = Some False"
| "length_gt E (JStr s) n = Some (n < length s)"
| "length_gt E (JArr xs) n = Some (n < length xs)"
| "length_gt E (JObj ob) n =
     (case ob ''length'' of
        None \<Rightarrow> Some False
      | Some (JNum k) \<Rightarrow> Some (real n < k)
      | Some v \<Rightarrow> coerced_gt E v n)"

subsection \<open>Responses and the store\<close>

datatype response = Response (code: nat) (payload: json)

type_synonym store = "task list"

definition error_body :: "string \<Rightarrow> json" where
  "error_body msg = JObj [''error'' \<mapsto> JStr msg]"

definition bad_request :: "string \<Rightarrow> response" where
  "bad_request msg = Response 400 (error_body msg)"

definition not_found :: response where
  "not_found = Response 404 (error_body ''Task not found'')"

text \<open>The \<^verbatim>\<open>catch\<close> block of every handler.\<close>

definition internal_error :: response where
  "internal_error = Response 500 (error_body ''Internal server error'')"

definition VALID_STATUSES :: "string list" where
  "VALID_STATUSES =
     [''Idea'', ''Assigned'', ''Drafting'', ''Editing'', ''Fact-Check'', ''Scheduled'',
      ''Published'']"

fun join :: "string \<Rightarrow> string list \<Rightarrow> string" where
  "join sep [] = []"
| "join sep [x] = x"
| "join sep (x # y # ys) = x @ sep @ join sep (y # ys)"

definition invalid_status :: response where
  "invalid_status =
     bad_request (''Invalid status. Must be one of: '' @ join '', '' VALID_STATUSES)"

text \<open>\<^verbatim>\<open>VALID_STATUSES.includes(status)\<close>: only a string equal to one of the stages is in.\<close>

definition valid_status :: "json \<Rightarrow> bool" where
  "valid_status v = (v \<in> set (map JStr VALID_STATUSES))"

text \<open>A destructuring default, \<^verbatim>\<open>{ k = d } = req.body\<close>: used when the property is absent.\<close>

definition with_default :: "json \<Rightarrow> json option \<Rightarrow> json" where
  "with_default d v = (case v of None \<Rightarrow> d | Some w \<Rightarrow> w)"

subsection \<open>Validation steps\<close>

text \<open>
  The outcome of one validation step: it passes, it answers 400, or it throws, which the
  \<^verbatim>\<open>catch\<close> block of the handler answers with 500. The steps of a handler run in the order
  of the source, and the first that does not pass decides.
\<close>

datatype check = Pass | Reject response | Throw

definition and_then :: "check \<Rightarrow> check \<Rightarrow> check" where
  "and_then c d = (case c of Pass \<Rightarrow> d | _ \<Rightarrow> c)"

text \<open>\<^verbatim>\<open>v.trim()\<close>: only a string has the method; on anything else the call throws.\<close>

definition js_trim :: "json \<Rightarrow> json option" where
  "js_trim v = (case v of JStr s \<Rightarrow> Some (JStr (trim s)) | _ \<Rightarrow> None)"

subsection \<open>\<^verbatim>\<open>POST /tasks\<close>\<close>

text \<open>
  \<^verbatim>\<open>if (!title || typeof title !== 'string' || !title.trim())\<close>, then
  \<^verbatim>\<open>if (title.length > 200)\<close>: the length that is compared is the one of the title as it
  came, before trimming.
\<close>

definition create_title :: "json option \<Rightarrow> check" where
  "create_title title =
     (case title of
        Some (JStr s) \<Rightarrow>
          if s = [] \<or> trim s = [] then
            Reject (bad_request ''Title is required and must be a non-empty string'')
          else if 200 < length s then
            Reject (bad_request ''Title must be 200 characters or less'')
          else Pass
      | _ \<Rightarrow> Reject (bad_request ''Title is required and must be a non-empty string''))"

text \<open>\<^verbatim>\<open>if (description && description.length > 2000)\<close>\<close>

definition create_description :: "js_env \<Rightarrow> json \<Rightarrow> check" where
  "create_description E description =
     (if truthy description then
        (case length_gt E description 2000 of
           None \<Rightarrow> Throw
         | Some True \<Rightarrow> Reject (bad_request ''Description must be 2000 characters or less'')
         | Some False \<Rightarrow> Pass)
      else Pass)"

text \<open>\<^verbatim>\<open>if (!VALID_STATUSES.includes(status))\<close>\<close>

definition create_status :: "json \<Rightarrow> check" where
  "create_status status = (if \<not> valid_status status then Reject invalid_status else Pass)"

text \<open>\<^verbatim>\<open>if (dueDate && isNaN(Date.parse(dueDate)))\<close>\<close>

definition create_dueDate :: "js_env \<Rightarrow> json \<Rightarrow> check" where
  "create_dueDate E dueDate =
     (if truthy dueDate then
        (case date_is_nan E dueDate of
           None \<Rightarrow> Throw
         | Some True \<Rightarrow> Reject (bad_request ''Invalid date format for dueDate'')
         | Some False \<Rightarrow> Pass)
      else Pass)"

text \<open>
  The object literal of the new task. \<open>uuid\<close> is what \<^verbatim>\<open>uuidv4()\<close> returned, \<open>t1\<close> and \<open>t2\<close>
  are the two readings of the clock. \<^verbatim>\<open>dueDate\<close> and \<^verbatim>\<open>status\<close> go in as they came;
  the three \<^verbatim>\<open>trim()\<close> calls throw on anything but a string (\<open>None\<close>).
\<close>

definition new_task ::
  "string \<Rightarrow> string \<Rightarrow> string \<Rightarrow> json option \<Rightarrow> json \<Rightarrow> json \<Rightarrow> json \<Rightarrow> json \<Rightarrow> task option" where
  "new_task uuid t1 t2 title description assignee dueDate status =
     (case (Option.bind title js_trim, js_trim description, js_trim assignee) of
        (Some title', Some description', Some assignee') \<Rightarrow>
          Some [''id'' \<mapsto> JStr uuid,
                ''title'' \<mapsto> title',
                ''description'' \<mapsto> description',
                ''assignee'' \<mapsto> assignee',
                ''dueDate'' \<mapsto> dueDate,
                ''status'' \<mapsto> status,
                ''createdAt'' \<mapsto> JStr t1,
                ''updatedAt'' \<mapsto> JStr t2]
      | _ \<Rightarrow> None)"

text \<open>
  The handler of the current server. The body is destructured with its defaults, the four
  checks run, the task is built, and only then is it pushed to the array.
\<close>

definition create ::
  "js_env \<Rightarrow> string \<Rightarrow> string \<Rightarrow> string \<Rightarrow> obj \<Rightarrow> store \<Rightarrow> response \<times> store" where
  "create E uuid t1 t2 body tasks =
     (let title = body ''title'';
          description = with_default (JStr []) (body ''description'');
          assignee = with_default (JStr []) (body ''assignee'');
          dueDate = with_default (JStr []) (body ''dueDate'');
          status = with_default (JStr ''Idea'') (body ''status'')
      in case and_then (create_title title)
                (and_then (create_description E description)
                   (and_then (create_status status) (create_dueDate E dueDate))) of
           Reject r \<Rightarrow> (r, tasks)
         | Throw \<Rightarrow> (internal_error, tasks)
         | Pass \<Rightarrow>
             (case new_task uuid t1 t2 title description assignee dueDate status of
                None \<Rightarrow> (internal_error, tasks)
              | Some newTask \<Rightarrow> (Response 201 (JObj newTask), tasks @ [newTask])))"

subsection \<open>\<^verbatim>\<open>PUT /tasks/:id\<close>\<close>

text \<open>\<^verbatim>\<open>tasks.findIndex(task => task.id === id)\<close>, with \<open>None\<close> for \<^verbatim>\<open>-1\<close>.\<close>

fun findIndex :: "store \<Rightarrow> string \<Rightarrow> nat option" where
  "findIndex [] i = None"
| "findIndex (t # ts) i =
     (if t ''id'' = Some (JStr i) then Some 0 else map_option Suc (findIndex ts i))"

text \<open>
  \<^verbatim>\<open>if (title !== undefined) { if (typeof title !== 'string' || !title.trim()) ...;
  if (title.length > 200) ... }\<close>, and the three checks after it, each skipped when the body
  does not have the property.
\<close>

definition check_title :: "json option \<Rightarrow> check" where
  "check_title title =
     (case title of
        None \<Rightarrow> Pass
      | Some (JStr s) \<Rightarrow>
          if trim s = [] then Reject (bad_request ''Title must be a non-empty string'')
          else if 200 < length s then
            Reject (bad_request ''Title must be 200 characters or less'')
          else Pass
      | Some _ \<Rightarrow> Reject (bad_request ''Title must be a non-empty string''))"

definition check_description :: "js_env \<Rightarrow> json option \<Rightarrow> check" where
  "check_description E description =
     (case description of
        None \<Rightarrow> Pass
      | Some d \<Rightarrow>
          (case length_gt E d 2000 of
             None \<Rightarrow> Throw
           | Some True \<Rightarrow> Reject (bad_request ''Description must be 2000 characters or less'')
           | Some False \<Rightarrow> Pass))"

definition check_status :: "json option \<Rightarrow> check" where
  "check_status status =
     (case status of
        None \<Rightarrow> Pass
      | Some v \<Rightarrow> if \<not> valid_status v then Reject invalid_status else Pass)"

definition check_dueDate :: "js_env \<Rightarrow> json option \<Rightarrow> check" where
  "check_dueDate E dueDate =
     (case dueDate of
        None \<Rightarrow> Pass
      | Some v \<Rightarrow>
          if truthy v then
            (case date_is_nan E v of
               None \<Rightarrow> Throw
             | Some True \<Rightarrow> Reject (bad_request ''Invalid date format for dueDate'')
             | Some False \<Rightarrow> Pass)
          else Pass)"

definition validate_update :: "js_env \<Rightarrow> obj \<Rightarrow> check" where
  "validate_update E body =
     and_then (check_title (body ''title''))
       (and_then (check_description E (body ''description''))
          (and_then (check_status (body ''status'')) (check_dueDate E (body ''dueDate''))))"

text \<open>
  \<^verbatim>\<open>{ ...existingTask, ...req.body, id: existingTask.id, createdAt: existingTask.createdAt,
  updatedAt: now }\<close>: the body's properties go over the task's, then the three named ones.
\<close>

definition merge_task :: "string \<Rightarrow> task \<Rightarrow> obj \<Rightarrow> task" where
  "merge_task now existingTask body =
     (existingTask ++ body)
       (''id'' := existingTask ''id'',
        ''createdAt'' := existingTask ''createdAt'',
        ''updatedAt'' \<mapsto> JStr now)"

text \<open>
  \<^verbatim>\<open>if (t.k) t.k = t.k.trim()\<close>: nothing happens on a falsy value; a truthy value that is not
  a string has no \<^verbatim>\<open>trim\<close>, and the call throws (\<open>None\<close>).
\<close>

definition trim_field :: "string \<Rightarrow> task \<Rightarrow> task option" where
  "trim_field k t =
     (case t k of
        None \<Rightarrow> Some t
      | Some (JStr s) \<Rightarrow> Some (if s \<noteq> [] then t(k \<mapsto> JStr (trim s)) else t)
      | Some v \<Rightarrow> if truthy v then None else Some t)"

definition trim_fields :: "task \<Rightarrow> task option" where
  "trim_fields t =
     Option.bind (trim_field ''title'' t)
       (\<lambda>t1. Option.bind (trim_field ''description'' t1) (trim_field ''assignee''))"

definition update :: "js_env \<Rightarrow> string \<Rightarrow> string \<Rightarrow> obj \<Rightarrow> store \<Rightarrow> response \<times> store" where
  "update E now i body tasks =
     (case findIndex tasks i of
        None \<Rightarrow> (not_found, tasks)
      | Some taskIndex \<Rightarrow>
          (case validate_update E body of
             Reject r \<Rightarrow> (r, tasks)
           | Throw \<Rightarrow> (internal_error, tasks)
           | Pass \<Rightarrow>
               (case trim_fields (merge_task now (tasks ! taskIndex) body) of
                  None \<Rightarrow> (internal_error, tasks)
                | Some updatedTask \<Rightarrow>
                    (Response 200 (JObj updatedTask), tasks[taskIndex := updatedTask]))))"

subsection \<open>\<^verbatim>\<open>DELETE /tasks/:id\<close>\<close>

text \<open>\<^verbatim>\<open>tasks.splice(taskIndex, 1)[0]\<close> takes the task out and is the task taken out.\<close>

definition delete :: "string \<Rightarrow> store \<Rightarrow> response \<times> store" where
  "delete i tasks =
     (case findIndex tasks i of
        None \<Rightarrow> (not_found, tasks)
      | Some taskIndex \<Rightarrow>
          (let deletedTask = tasks ! taskIndex
           in (Response 200
                 (JObj [''message'' \<mapsto> JStr ''Task deleted'', ''task'' \<mapsto> JObj deletedTask]),
               take taskIndex tasks @ drop (Suc taskIndex) tasks)))"

subsection \<open>\<^verbatim>\<open>GET /tasks\<close>\<close>

text \<open>
  A query parameter is absent or a string. \<^verbatim>\<open>if (status)\<close> skips an absent parameter and
  the empty string alike; otherwise the tasks whose status is that string stay.
\<close>

definition filter_status :: "string option \<Rightarrow> task list \<Rightarrow> task list" where
  "filter_status status ts =
     (case status of
        None \<Rightarrow> ts
      | Some st \<Rightarrow> if st = [] then ts else filter (\<lambda>task. task ''status'' = Some (JStr st)) ts)"

text \<open>
  The assignee filter of the current server calls \<^verbatim>\<open>task.assignee.toLowerCase()\<close> on each
  task in turn; on an assignee that is not a string the call throws, and the whole
  \<^verbatim>\<open>filter\<close> with it (\<open>None\<close>).
\<close>

fun includes_assignee :: "string \<Rightarrow> task list \<Rightarrow> task list option" where
  "includes_assignee a [] = Some []"
| "includes_assignee a (t # ts) =
     (case t ''assignee'' of
        Some (JStr s) \<Rightarrow>
          (case includes_assignee a ts of
             None \<Rightarrow> None
           | Some r \<Rightarrow>
               Some (if str_includes (toLowerCase s) (toLowerCase a) then t # r else r))
      | _ \<Rightarrow> None)"

definition filter_assignee :: "string option \<Rightarrow> task list \<Rightarrow> task list option" where
  "filter_assignee assignee ts =
     (case assignee of
        None \<Rightarrow> Some ts
      | Some a \<Rightarrow> if a = [] then Some ts else includes_assignee a ts)"

definition list_tasks :: "string option \<Rightarrow> string option \<Rightarrow> store \<Rightarrow> response \<times> store" where
  "list_tasks status assignee tasks =
     (case filter_assignee assignee (filter_status status tasks) of
        None \<Rightarrow> (internal_error, tasks)
      | Some filteredTasks \<Rightarrow> (Response 200 (JArr (map JObj filteredTasks)), tasks))"

text \<open>
  The same route in the older server file: the assignee is compared with \<^verbatim>\<open>===\<close> too, and
  there is no \<^verbatim>\<open>try\<close>.
\<close>

definition filter_assignee_v1 :: "string option \<Rightarrow> task list \<Rightarrow> task list" where
  "filter_assignee_v1 assignee ts =
     (case assignee of
        None \<Rightarrow> ts
      | Some a \<Rightarrow> if a = [] then ts else filter (\<lambda>task. task ''assignee'' = Some (JStr a)) ts)"

definition list_tasks_v1 :: "string option \<Rightarrow> string option \<Rightarrow> store \<Rightarrow> response \<times> store" where
  "list_tasks_v1 status assignee tasks =
     (Response 200 (JArr (map JObj (filter_assignee_v1 assignee (filter_status status tasks)))),
      tasks)"

subsection \<open>The states the API can reach\<close>

text \<open>
  The array starts empty and changes only through the three writing routes, each of which
  changes it only when it answers with success.
\<close>

inductive reachable :: "js_env \<Rightarrow> store \<Rightarrow> bool" for E :: js_env where
  start: "reachable E []"
| after_create:
    "reachable E tasks \<Longrightarrow> create E uuid t1 t2 body tasks = (Response 201 b, tasks')
       \<Longrightarrow> reachable E tasks'"
| after_update:
    "reachable E tasks \<Longrightarrow> update E now i body tasks = (Response 200 b, tasks')
       \<Longrightarrow> reachable E tasks'"
| after_delete:
    "reachable E tasks \<Longrightarrow> delete i tasks = (Response 200 b, tasks')
       \<Longrightarrow> reachable E tasks'"

text \<open>
  What the trimming of both writing routes leaves in a field: nothing, a string equal to
  its own trimmed form, or a falsy value that is not a string (the update route skips those).
\<close>

definition field_ok :: "json option \<Rightarrow> bool" where
  "field_ok v =
     (case v of None \<Rightarrow> True | Some (JStr s) \<Rightarrow> trim s = s | Some w \<Rightarrow> \<not> truthy w)"

definition task_ok :: "task \<Rightarrow> bool" where
  "task_ok t =
     (field_ok (t ''title'') \<and> field_ok (t ''description'') \<and> field_ok (t ''assignee''))"

text \<open>The status of a task is one of the seven stages.\<close>

definition status_ok :: "task \<Rightarrow> bool" where
  "status_ok t = (case t ''status'' of None \<Rightarrow> False | Some v \<Rightarrow> valid_status v)"

text \<open>No two tasks of the store carry the same \<^verbatim>\<open>id\<close>.\<close>

definition unique_ids :: "store \<Rightarrow> bool" where
  "unique_ids tasks = distinct (map (\<lambda>t. t ''id'') tasks)"

text \<open>
  What the list route is specified to return: the tasks that match every filter that is
  given and not empty, the status by equality, the assignee by containing the filter, both
  in lower case.
\<close>

definition matches :: "string option \<Rightarrow> string option \<Rightarrow> task \<Rightarrow> bool" where
  "matches status assignee t =
     ((\<forall>st. status = Some st \<longrightarrow> st \<noteq> [] \<longrightarrow> t ''status'' = Some (JStr st)) \<and>
      (\<forall>f. assignee = Some f \<longrightarrow> f \<noteq> [] \<longrightarrow>
         (\<exists>a p q. t ''assignee'' = Some (JStr a) \<and> toLowerCase a = p @ toLowerCase f @ q)))"

subsection \<open>The board clients: dropping a card on a column\<close>

text \<open>
  The model keeps the update requests a drop sends. What a client does with the answer
  (a refetch, a merge of the returned task, an error banner) comes after the request and
  does not decide whether one is sent.
\<close>

datatype request = PUT string obj

text \<open>
  \<^verbatim>\<open>project_management_app.jsx\<close>: the dragged id is component state, set by
  \<^verbatim>\<open>handleDragStart\<close> and cleared by every drop.
\<close>

definition updateTaskStatus :: "string \<Rightarrow> string \<Rightarrow> request list" where
  "updateTaskStatus taskId newStatus = [PUT taskId [''status'' \<mapsto> JStr newStatus]]"

definition handleDragStart :: "string \<Rightarrow> string option" where
  "handleDragStart taskId = Some taskId"

definition handleDrop :: "task list \<Rightarrow> string option \<Rightarrow> string \<Rightarrow> request list \<times> string option" where
  "handleDrop tasks draggedTaskId status =
     ((case draggedTaskId of
         None \<Rightarrow> []
       | Some d \<Rightarrow>
           if d = [] then []
           else
             (case find (\<lambda>t. t ''id'' = Some (JStr d)) tasks of
                None \<Rightarrow> []
              | Some task \<Rightarrow>
                  if task ''status'' \<noteq> Some (JStr status) then updateTaskStatus d status
                  else [])),
      None)"

text \<open>
  \<^verbatim>\<open>App.jsx\<close>: the dragged id travels in the drag event's data, and the drop hands it to
  \<^verbatim>\<open>updateTaskStatus\<close> at once, which sends the whole task with the new status.
\<close>

definition App_updateTaskStatus :: "task list \<Rightarrow> string \<Rightarrow> string \<Rightarrow> request list" where
  "App_updateTaskStatus tasks taskId newStatus =
     (let task = find (\<lambda>t. t ''id'' = Some (JStr taskId)) tasks
      in [PUT taskId ((case task of None \<Rightarrow> Map.empty | Some t \<Rightarrow> t)(''status'' \<mapsto> JStr newStatus))])"

definition App_handleDrop :: "task list \<Rightarrow> string \<Rightarrow> string \<Rightarrow> request list" where
  "App_handleDrop tasks taskId status = App_updateTaskStatus tasks taskId status"

subsection \<open>The ids of new tasks\<close>

text \<open>
  Modelled from the spec: \<^verbatim>\<open>uuidv4\<close> of the \<^verbatim>\<open>uuid\<close> package, which the server requires and
  which is not among the sources. The specification says of create that it "assigns a
  new unique id", and of the id that it is an "opaque unique string, generated
  server-side on create". The model keeps of the generator what these words say: its calls
  are counted, and the value of one call is the value of no other call.
\<close>

definition uuidv4 :: "nat \<Rightarrow> string" where
  "uuidv4 n = replicate (Suc n) (CHR ''0'')"

text \<open>The server with its generator: the number of ids generated so far, and the array.\<close>

type_synonym server = "nat \<times> store"

text \<open>The four checks of the create route, which run before \<^verbatim>\<open>uuidv4()\<close> is called.\<close>

definition create_checks :: "js_env \<Rightarrow> obj \<Rightarrow> check" where
  "create_checks E body =
     and_then (create_title (body ''title''))
       (and_then (create_description E (with_default (JStr []) (body ''description'')))
          (and_then (create_status (with_default (JStr ''Idea'') (body ''status'')))
             (create_dueDate E (with_default (JStr []) (body ''dueDate'')))))"

text \<open>
  \<^verbatim>\<open>POST /tasks\<close> on that server: the create route with the generator's next value as the
  id. The generator is called, and its count goes up, when the checks have passed.
\<close>

definition post_tasks ::
  "js_env \<Rightarrow> string \<Rightarrow> string \<Rightarrow> obj \<Rightarrow> server \<Rightarrow> response \<times> server" where
  "post_tasks E t1 t2 body s =
     (case s of (calls, tasks) \<Rightarrow>
        (case create E (uuidv4 calls) t1 t2 body tasks of (r, tasks') \<Rightarrow>
           (r, (if create_checks E body = Pass then Suc calls else calls, tasks'))))"

text \<open>
  The runs of that server from its start, any requests in any order, with the list of the
  tasks its creates have returned so far, each as it was returned.
\<close>

inductive served :: "js_env \<Rightarrow> task list \<Rightarrow> server \<Rightarrow> bool" for E :: js_env where
  boot: "served E [] (0, [])"
| post_created:
    "served E created s \<Longrightarrow> post_tasks E t1 t2 body s = (Response 201 (JObj t), s')
       \<Longrightarrow> served E (created @ [t]) s'"
| post_refused:
    "served E created s \<Longrightarrow> post_tasks E t1 t2 body s = (r, s') \<Longrightarrow> code r \<noteq> 201
       \<Longrightarrow> served E created s'"
| put:
    "served E created (calls, tasks) \<Longrightarrow> update E now i body tasks = (r, tasks')
       \<Longrightarrow> served E created (calls, tasks')"
| del:
    "served E created (calls, tasks) \<Longrightarrow> delete i tasks = (r, tasks')
       \<Longrightarrow> served E created (calls, tasks')"

subsection \<open>A sample store\<close>

text \<open>
  The task of the specification's example scenario, as the create route builds it from
  \<^verbatim>\<open>{title: "Write launch article", assignee: "Ada"}\<close>, and an engine for the examples:
  no example reaches it, since their due dates are empty and their descriptions strings.
\<close>

definition sample_env :: js_env where
  "sample_env = \<lparr>date_is_nan = (\<lambda>v. Some True), coerced_gt = (\<lambda>v n. Some False)\<rparr>"

definition launch_task :: task where
  "launch_task =
     [''id'' \<mapsto> JStr ''t1'',
      ''title'' \<mapsto> JStr ''Write launch article'',
      ''description'' \<mapsto> JStr [],
      ''assignee'' \<mapsto> JStr ''Ada'',
      ''dueDate'' \<mapsto> JStr [],
      ''status'' \<mapsto> JStr ''Idea'',
      ''createdAt'' \<mapsto> JStr ''2024-01-01T00:00:00.000Z'',
      ''updatedAt'' \<mapsto> JStr ''2024-01-01T00:00:00.000Z'']"

text \<open>
  A second task, as the create route builds it from \<^verbatim>\<open>{title: "Interview the crew"}\<close>
  a day later.
\<close>

definition crew_task :: task where
  "crew_task =
     [''id'' \<mapsto> JStr ''t2'',
      ''title'' \<mapsto> JStr ''Interview the crew'',
      ''description'' \<mapsto> JStr [],
      ''assignee'' \<mapsto> JStr [],
      ''dueDate'' \<mapsto> JStr [],
      ''status'' \<mapsto> JStr ''Idea'',
      ''createdAt'' \<mapsto> JStr ''2024-01-02T00:00:00.000Z'',
      ''updatedAt'' \<mapsto> JStr ''2024-01-02T00:00:00.000Z'']"

text \<open>A title of 201 code units, 200 of them after trimming.\<close>

definition padded_title :: string where
  "padded_title = replicate 200 (CHR ''a'') @ '' ''"

text \<open>Reading a property of a response body, \<^verbatim>\<open>body.k\<close>.\<close>

definition property :: "json \<Rightarrow> string \<Rightarrow> json option" where
  "property v k = (case v of JObj ob \<Rightarrow> ob k | _ \<Rightarrow> None)"

section \<open>Properties\<close>

subsection \<open>Trimming\<close>

lemma dropWhile_keep: "xs \<noteq> [] \<Longrightarrow> \<not> P (hd xs) \<Longrightarrow> dropWhile P xs = xs"
  by (cases xs) simp_all

lemma trim_Nil [simp]: "trim [] = []"
  by (simp add: trim_def)

lemma trimmed_trim: "trimmed (trim s)"
proof -
  define u where "u = dropWhile is_ws s"
  define v where "v = dropWhile is_ws (rev u)"
  have t: "trim s = rev v" by (simp add: trim_def u_def v_def)
  show ?thesis
  proof (cases "v = []")
    case True
    then show ?thesis by (simp add: t trimmed_def)
  next
    case False
    have hv: "\<not> is_ws (hd v)" using False unfolding v_def by (simp add: hd_dropWhile)
    have "u \<noteq> []" using False by (auto simp: v_def)
    then have hu: "\<not> is_ws (hd u)" unfolding u_def by (simp add: hd_dropWhile)
    obtain w where w: "rev u = w @ v"
      unfolding v_def by (metis takeWhile_dropWhile_id)
    have "last v = last (rev u)" using False w by simp
    also have "\<dots> = hd u" using \<open>u \<noteq> []\<close> by (simp add: last_rev)
    finally have lv: "last v = hd u" .
    have "hd (rev v) = last v" using False by (simp add: hd_rev)
    moreover have "last (rev v) = hd v" using False by (simp add: last_rev)
    ultimately show ?thesis using hv hu lv False by (simp add: t trimmed_def)
  qed
qed

lemma trim_id: "trimmed s \<Longrightarrow> trim s = s"
proof (cases "s = []")
  case True
  then show ?thesis by simp
next
  case False
  assume "trimmed s"
  with False have h: "\<not> is_ws (hd s)" and l: "\<not> is_ws (last s)"
    by (simp_all add: trimmed_def)
  have a: "dropWhile is_ws s = s" using False h by (rule dropWhile_keep)
  have "hd (rev s) = last s" using False by (simp add: hd_rev)
  then have b: "dropWhile is_ws (rev s) = rev s" using False l by (simp add: dropWhile_keep)
  show ?thesis by (simp add: trim_def a b)
qed

lemma trim_trim: "trim (trim s) = trim s"
  by (rule trim_id) (rule trimmed_trim)

lemma trimmed_iff: "trimmed s \<longleftrightarrow> trim s = s"
  by (metis trim_id trimmed_trim)

lemma trim_padded_title: "trim padded_title = replicate 200 (CHR ''a'')"
proof -
  have a: "dropWhile is_ws (replicate 200 (CHR ''a'') @ '' '') = replicate 200 (CHR ''a'') @ '' ''"
    by (rule dropWhile_keep) (simp_all add: is_ws_def hd_append)
  have b: "dropWhile is_ws (replicate 200 (CHR ''a'')) = replicate 200 (CHR ''a'')"
    by (rule dropWhile_keep) (simp_all add: is_ws_def)
  show ?thesis by (simp add: trim_def padded_title_def a b is_ws_def)
qed

subsection \<open>Finding a task by its id\<close>

lemma findIndex_None_iff:
  "findIndex tasks i = None \<longleftrightarrow> (\<forall>t\<in>set tasks. t ''id'' \<noteq> Some (JStr i))"
  by (induction tasks) auto

lemma findIndex_Some:
  "findIndex tasks i = Some n \<Longrightarrow>
     n < length tasks \<and> (tasks ! n) ''id'' = Some (JStr i) \<and>
     (\<forall>j<n. (tasks ! j) ''id'' \<noteq> Some (JStr i))"
proof (induction tasks arbitrary: n)
  case Nil
  then show ?case by simp
next
  case (Cons t ts)
  show ?case
  proof (cases "t ''id'' = Some (JStr i)")
    case True
    with Cons.prems show ?thesis by simp
  next
    case False
    with Cons.prems obtain m where m: "findIndex ts i = Some m" "n = Suc m" by auto
    from Cons.IH [OF m(1)] False m(2) show ?thesis
      by (auto simp: nth_Cons split: nat.splits)
  qed
qed

lemma findIndex_unique:
  "unique_ids tasks \<Longrightarrow> n < length tasks \<Longrightarrow> (tasks ! n) ''id'' = Some (JStr i)
     \<Longrightarrow> findIndex tasks i = Some n"
proof (induction tasks arbitrary: n)
  case Nil
  then show ?case by simp
next
  case (Cons t ts)
  show ?case
  proof (cases n)
    case 0
    with Cons.prems show ?thesis by simp
  next
    case (Suc m)
    with Cons.prems have m: "m < length ts" "(ts ! m) ''id'' = Some (JStr i)" by simp_all
    then have "Some (JStr i) \<in> (\<lambda>t. t ''id'') ` set ts"
      by (metis imageI nth_mem)
    with Cons.prems(1) have "t ''id'' \<noteq> Some (JStr i)" by (auto simp: unique_ids_def)
    moreover from Cons.prems(1) have "unique_ids ts" by (simp add: unique_ids_def)
    ultimately show ?thesis using Cons.IH [OF _ m] Suc by simp
  qed
qed

subsection \<open>What a validation step answers\<close>

lemma and_then_simps [simp]:
  "and_then Pass d = d" "and_then (Reject r) d = Reject r" "and_then Throw d = Throw"
  by (simp_all add: and_then_def)

lemma and_then_Reject: "and_then c d = Reject r \<longleftrightarrow> c = Reject r \<or> (c = Pass \<and> d = Reject r)"
  by (cases c) auto

lemma create_title_Reject: "create_title t = Reject r \<Longrightarrow> code r = 400"
  by (auto simp: create_title_def bad_request_def split: option.splits json.splits if_splits)

lemma create_description_Reject: "create_description E d = Reject r \<Longrightarrow> code r = 400"
  by (auto simp: create_description_def bad_request_def split: option.splits bool.splits if_splits)

lemma create_status_Reject: "create_status s = Reject r \<Longrightarrow> code r = 400"
  by (auto simp: create_status_def invalid_status_def bad_request_def split: if_splits)

lemma create_dueDate_Reject: "create_dueDate E d = Reject r \<Longrightarrow> code r = 400"
  by (auto simp: create_dueDate_def bad_request_def split: option.splits bool.splits if_splits)

lemma check_title_Reject: "check_title t = Reject r \<Longrightarrow> code r = 400"
  by (auto simp: check_title_def bad_request_def split: option.splits json.splits if_splits)

lemma check_description_Reject: "check_description E d = Reject r \<Longrightarrow> code r = 400"
  by (auto simp: check_description_def bad_request_def split: option.splits bool.splits if_splits)

lemma check_status_Reject: "check_status s = Reject r \<Longrightarrow> code r = 400"
  by (auto simp: check_status_def invalid_status_def bad_request_def split: option.splits if_splits)

lemma check_dueDate_Reject: "check_dueDate E d = Reject r \<Longrightarrow> code r = 400"
  by (auto simp: check_dueDate_def bad_request_def split: option.splits bool.splits if_splits)

lemma validate_update_Reject: "validate_update E body = Reject r \<Longrightarrow> code r = 400"
  by (auto simp: validate_update_def and_then_Reject
      dest: check_title_Reject check_description_Reject check_status_Reject check_dueDate_Reject)

subsection \<open>What a successful answer tells\<close>

lemma create_success:
  assumes "create E uuid t1 t2 body tasks = (Response 201 b, tasks')"
  shows "\<exists>newTask.
           new_task uuid t1 t2 (body ''title'') (with_default (JStr []) (body ''description''))
             (with_default (JStr []) (body ''assignee'')) (with_default (JStr []) (body ''dueDate''))
             (with_default (JStr ''Idea'') (body ''status'')) = Some newTask \<and>
           b = JObj newTask \<and> tasks' = tasks @ [newTask]"
  using assms
  by (auto simp: create_def Let_def and_then_Reject internal_error_def
      split: check.splits option.splits
      dest: create_title_Reject create_description_Reject create_status_Reject create_dueDate_Reject)

lemma new_task_Some:
  assumes "new_task uuid t1 t2 title description assignee dueDate status = Some nt"
  shows "\<exists>s d a. title = Some (JStr s) \<and> description = JStr d \<and> assignee = JStr a \<and>
           nt = [''id'' \<mapsto> JStr uuid, ''title'' \<mapsto> JStr (trim s),
                 ''description'' \<mapsto> JStr (trim d), ''assignee'' \<mapsto> JStr (trim a),
                 ''dueDate'' \<mapsto> dueDate, ''status'' \<mapsto> status,
                 ''createdAt'' \<mapsto> JStr t1, ''updatedAt'' \<mapsto> JStr t2]"
  using assms
  by (auto simp: new_task_def js_trim_def split: option.splits json.splits Option.bind_splits)

lemma update_success:
  assumes "update E now i body tasks = (Response 200 b, tasks')"
  shows "\<exists>n t'. findIndex tasks i = Some n \<and> validate_update E body = Pass \<and>
           trim_fields (merge_task now (tasks ! n) body) = Some t' \<and>
           b = JObj t' \<and> tasks' = tasks[n := t']"
  using assms
  by (auto simp: update_def not_found_def internal_error_def
      split: option.splits check.splits dest: validate_update_Reject)

lemma delete_success:
  assumes "delete i tasks = (Response 200 b, tasks')"
  shows "\<exists>n. findIndex tasks i = Some n \<and> tasks' = take n tasks @ drop (Suc n) tasks"
  using assms by (auto simp: delete_def not_found_def Let_def split: option.splits)

text \<open>An answer other than success leaves the array as it was; the list route always does.\<close>

lemma create_failure_keeps_store:
  "code (fst (create E uuid t1 t2 body tasks)) \<noteq> 201 \<Longrightarrow>
     snd (create E uuid t1 t2 body tasks) = tasks"
  by (auto simp: create_def Let_def split: check.splits option.splits)

lemma update_failure_keeps_store:
  "code (fst (update E now i body tasks)) \<noteq> 200 \<Longrightarrow> snd (update E now i body tasks) = tasks"
  by (auto simp: update_def split: check.splits option.splits)

lemma delete_failure_keeps_store:
  "code (fst (delete i tasks)) \<noteq> 200 \<Longrightarrow> snd (delete i tasks) = tasks"
  by (auto simp: delete_def Let_def split: option.splits)

lemma list_tasks_keeps_store: "snd (list_tasks status assignee tasks) = tasks"
  by (simp add: list_tasks_def split: option.splits)

subsection \<open>The sample store is one the API builds\<close>

lemma task_ok_launch_task: "task_ok launch_task"
  by (simp add: task_ok_def field_ok_def launch_task_def trim_def is_ws_def)

lemma findIndex_launch_task: "findIndex [launch_task] ''t1'' = Some 0"
  by (simp add: launch_task_def)

lemma unique_ids_launch_task: "unique_ids [launch_task]"
  by (simp add: unique_ids_def)

lemma create_launch_task:
  "create sample_env ''t1'' ''2024-01-01T00:00:00.000Z'' ''2024-01-01T00:00:00.000Z''
     [''title'' \<mapsto> JStr ''Write launch article'', ''assignee'' \<mapsto> JStr ''Ada''] [] =
   (Response 201 (JObj launch_task), [launch_task])"
  by (simp add: create_def Let_def with_default_def create_title_def create_description_def
      create_status_def create_dueDate_def valid_status_def VALID_STATUSES_def new_task_def
      js_trim_def launch_task_def trim_def is_ws_def)

lemma reachable_launch_task: "reachable sample_env [launch_task]"
  using reachable.after_create [OF reachable.start create_launch_task] .

subsection \<open>The trimmed fields of every stored task\<close>

lemma trim_field_Some:
  assumes "trim_field k t = Some t'"
  shows "field_ok (t' k) \<and> (\<forall>k'. k' \<noteq> k \<longrightarrow> t' k' = t k')"
  using assms
  by (auto simp: trim_field_def field_ok_def trim_trim split: option.splits json.splits if_splits)

lemma trim_fields_Some:
  assumes "trim_fields t = Some t'"
  shows "task_ok t' \<and>
         (\<forall>k. k \<noteq> ''title'' \<longrightarrow> k \<noteq> ''description'' \<longrightarrow> k \<noteq> ''assignee'' \<longrightarrow> t' k = t k)"
proof -
  from assms obtain a b where a: "trim_field ''title'' t = Some a"
    and b: "trim_field ''description'' a = Some b"
    and c: "trim_field ''assignee'' b = Some t'"
    by (auto simp: trim_fields_def split: Option.bind_splits)
  from trim_field_Some [OF a] trim_field_Some [OF b] trim_field_Some [OF c]
  show ?thesis by (simp add: task_ok_def)
qed

lemma trim_field_id: "field_ok (t k) \<Longrightarrow> trim_field k t = Some t"
  by (auto simp: trim_field_def field_ok_def split: option.splits json.splits)

lemma trim_fields_id: "task_ok t \<Longrightarrow> trim_fields t = Some t"
  by (simp add: trim_fields_def task_ok_def trim_field_id)

lemma new_task_ok:
  assumes "new_task uuid t1 t2 title description assignee dueDate status = Some nt"
  shows "task_ok nt"
  using new_task_Some [OF assms] by (auto simp: task_ok_def field_ok_def trim_trim)

lemma reachable_task_ok: "reachable E tasks \<Longrightarrow> \<forall>t\<in>set tasks. task_ok t"
proof (induction rule: reachable.induct)
  case start
  then show ?case by simp
next
  case (after_create tasks uuid t1 t2 body b tasks')
  from create_success [OF after_create.hyps(2)] after_create.IH show ?case
    by (auto dest: new_task_ok)
next
  case (after_update tasks now i body b tasks')
  from update_success [OF after_update.hyps(2)] obtain n t' where
    "trim_fields (merge_task now (tasks ! n) body) = Some t'" "tasks' = tasks[n := t']"
    by blast
  with after_update.IH show ?case
    by (auto dest!: trim_fields_Some set_update_subset_insert [THEN subsetD])
next
  case (after_delete tasks i b tasks')
  from delete_success [OF after_delete.hyps(2)] obtain n where
    "tasks' = take n tasks @ drop (Suc n) tasks" by blast
  with after_delete.IH show ?case
    by (auto dest: in_set_takeD in_set_dropD)
qed

text \<open>The status of every stored task is one of the seven stages.\<close>

lemma create_success_status:
  assumes "create E uuid t1 t2 body tasks = (Response 201 b, tasks')"
  shows "valid_status (with_default (JStr ''Idea'') (body ''status''))"
proof -
  from assms have "create_status (with_default (JStr ''Idea'') (body ''status'')) = Pass"
    by (auto simp: create_def Let_def and_then_def internal_error_def
        split: check.splits option.splits
        dest: create_title_Reject create_description_Reject create_status_Reject
          create_dueDate_Reject)
  then show ?thesis by (simp add: create_status_def split: if_splits)
qed

lemma validate_update_status:
  assumes "validate_update E body = Pass" and "body ''status'' = Some v"
  shows "valid_status v"
proof -
  from assms(1) have "check_status (body ''status'') = Pass"
    by (auto simp: validate_update_def and_then_def split: check.splits)
  with assms(2) show ?thesis by (simp add: check_status_def split: if_splits)
qed

lemma reachable_status_ok: "reachable E tasks \<Longrightarrow> \<forall>t\<in>set tasks. status_ok t"
proof (induction rule: reachable.induct)
  case start
  then show ?case by simp
next
  case (after_create tasks uuid t1 t2 body b tasks')
  from create_success [OF after_create.hyps(2)] obtain nt where
    nt: "new_task uuid t1 t2 (body ''title'') (with_default (JStr []) (body ''description''))
           (with_default (JStr []) (body ''assignee'')) (with_default (JStr []) (body ''dueDate''))
           (with_default (JStr ''Idea'') (body ''status'')) = Some nt"
    and s: "tasks' = tasks @ [nt]" by blast
  from new_task_Some [OF nt]
  have "nt ''status'' = Some (with_default (JStr ''Idea'') (body ''status''))" by auto
  with create_success_status [OF after_create.hyps(2)] have "status_ok nt"
    by (simp add: status_ok_def)
  with after_create.IH s show ?case by simp
next
  case (after_update tasks now i body b tasks')
  from update_success [OF after_update.hyps(2)] obtain n t' where
    n: "findIndex tasks i = Some n" and v: "validate_update E body = Pass"
    and t: "trim_fields (merge_task now (tasks ! n) body) = Some t'"
    and s: "tasks' = tasks[n := t']" by blast
  from trim_fields_Some [OF t]
  have "t' ''status'' = merge_task now (tasks ! n) body ''status''" by simp
  then have st: "t' ''status'' = (case body ''status'' of None \<Rightarrow> (tasks ! n) ''status''
                                  | Some w \<Rightarrow> Some w)"
    by (simp add: merge_task_def map_add_def)
  from findIndex_Some [OF n] after_update.IH have "status_ok (tasks ! n)" by simp
  with st validate_update_status [OF v] have "status_ok t'"
    by (auto simp: status_ok_def split: option.splits)
  with after_update.IH s show ?case
    by (auto dest!: set_update_subset_insert [THEN subsetD])
next
  case (after_delete tasks i b tasks')
  from delete_success [OF after_delete.hyps(2)] obtain n where
    "tasks' = take n tasks @ drop (Suc n) tasks" by blast
  with after_delete.IH show ?case
    by (auto dest: in_set_takeD in_set_dropD)
qed

lemma valid_status_trimmed: "valid_status (JStr s) \<Longrightarrow> trimmed s"
  by (auto simp: valid_status_def VALID_STATUSES_def trimmed_def is_ws_def)

text \<open>An update whose merged task needs no trimming stores the merged task as it is.\<close>

lemma update_ok:
  assumes "findIndex tasks i = Some n" and "validate_update E body = Pass"
    and "task_ok (merge_task now (tasks ! n) body)"
  shows "update E now i body tasks =
           (Response 200 (JObj (merge_task now (tasks ! n) body)),
            tasks[n := merge_task now (tasks ! n) body])"
  using assms by (simp add: update_def trim_fields_id)

subsection \<open>Ids stay unique\<close>

text \<open>
  The routes never give a task another id, so the ids of the store are pairwise distinct
  as long as \<^verbatim>\<open>uuidv4()\<close> returns no id that is in use.
\<close>

lemma distinct_without_nth:
  assumes "distinct xs"
  shows "distinct (take n xs @ drop (Suc n) xs)"
proof -
  from assms have "distinct (take n xs @ drop n xs)" by simp
  then have "set (take n xs) \<inter> set (drop n xs) = {}" by (simp only: distinct_append)
  moreover have "set (drop (Suc n) xs) \<subseteq> set (drop n xs)"
    by (rule set_drop_subset_set_drop) simp
  ultimately have "set (take n xs) \<inter> set (drop (Suc n) xs) = {}" by blast
  with assms show ?thesis by simp
qed

lemma create_keeps_unique_ids:
  assumes "unique_ids tasks" and "\<forall>t\<in>set tasks. t ''id'' \<noteq> Some (JStr uuid)"
    and "create E uuid t1 t2 body tasks = (Response 201 b, tasks')"
  shows "unique_ids tasks'"
proof -
  from create_success [OF assms(3)] obtain nt where
    nt: "new_task uuid t1 t2 (body ''title'') (with_default (JStr []) (body ''description''))
           (with_default (JStr []) (body ''assignee'')) (with_default (JStr []) (body ''dueDate''))
           (with_default (JStr ''Idea'') (body ''status'')) = Some nt"
    and s: "tasks' = tasks @ [nt]" by blast
  from new_task_Some [OF nt] have "nt ''id'' = Some (JStr uuid)" by auto
  with assms(1,2) s show ?thesis by (auto simp: unique_ids_def)
qed

lemma update_keeps_unique_ids:
  assumes "unique_ids tasks" and "update E now i body tasks = (Response 200 b, tasks')"
  shows "unique_ids tasks'"
proof -
  from update_success [OF assms(2)] obtain n t' where
    n: "findIndex tasks i = Some n"
    and t: "trim_fields (merge_task now (tasks ! n) body) = Some t'"
    and s: "tasks' = tasks[n := t']" by blast
  from trim_fields_Some [OF t] have "t' ''id'' = (tasks ! n) ''id''"
    by (simp add: merge_task_def)
  then have "map (\<lambda>t. t ''id'') tasks' = map (\<lambda>t. t ''id'') tasks"
    using findIndex_Some [OF n] s by (simp add: map_update list_update_same_conv)
  with assms(1) show ?thesis by (simp add: unique_ids_def)
qed

lemma delete_keeps_unique_ids:
  assumes "unique_ids tasks" and "delete i tasks = (Response 200 b, tasks')"
  shows "unique_ids tasks'"
proof -
  from delete_success [OF assms(2)] obtain n where
    s: "tasks' = take n tasks @ drop (Suc n) tasks" by blast
  from assms(1) have "distinct (take n (map (\<lambda>t. t ''id'') tasks) @
      drop (Suc n) (map (\<lambda>t. t ''id'') tasks))"
    unfolding unique_ids_def by (rule distinct_without_nth)
  then show ?thesis by (simp add: unique_ids_def s take_map drop_map)
qed

subsection \<open>The generator's ids\<close>

lemma uuidv4_inj: "uuidv4 m = uuidv4 n \<longleftrightarrow> m = n"
  by (simp add: uuidv4_def)

lemma create_by_checks:
  "create E uuid t1 t2 body tasks =
     (case create_checks E body of
        Reject r \<Rightarrow> (r, tasks)
      | Throw \<Rightarrow> (internal_error, tasks)
      | Pass \<Rightarrow>
          (case new_task uuid t1 t2 (body ''title'') (with_default (JStr []) (body ''description''))
                  (with_default (JStr []) (body ''assignee''))
                  (with_default (JStr []) (body ''dueDate''))
                  (with_default (JStr ''Idea'') (body ''status'')) of
             None \<Rightarrow> (internal_error, tasks)
           | Some newTask \<Rightarrow> (Response 201 (JObj newTask), tasks @ [newTask])))"
  by (simp add: create_def create_checks_def Let_def)

lemma create_checks_Reject: "create_checks E body = Reject r \<Longrightarrow> code r = 400"
  by (auto simp: create_checks_def and_then_Reject
      dest: create_title_Reject create_description_Reject create_status_Reject create_dueDate_Reject)

lemma create_returns:
  assumes "create E uuid t1 t2 body tasks = (Response 201 (JObj t), tasks')"
  shows "create_checks E body = Pass \<and> t ''id'' = Some (JStr uuid) \<and>
         t ''status'' = Some (with_default (JStr ''Idea'') (body ''status'')) \<and>
         tasks' = tasks @ [t]"
proof -
  from assms have p: "create_checks E body = Pass"
    by (auto simp: create_by_checks internal_error_def split: check.splits
        dest: create_checks_Reject)
  from create_success [OF assms] obtain nt where
    nt: "new_task uuid t1 t2 (body ''title'') (with_default (JStr []) (body ''description''))
           (with_default (JStr []) (body ''assignee'')) (with_default (JStr []) (body ''dueDate''))
           (with_default (JStr ''Idea'') (body ''status'')) = Some nt"
    and "JObj t = JObj nt" and s: "tasks' = tasks @ [nt]" by blast
  then have t: "t = nt" by simp
  from new_task_Some [OF nt] have "nt ''id'' = Some (JStr uuid)"
    and "nt ''status'' = Some (with_default (JStr ''Idea'') (body ''status''))" by auto
  with p t s show ?thesis by simp
qed

lemma post_tasks_created:
  assumes "post_tasks E t1 t2 body (calls, tasks) = (Response 201 (JObj t), s')"
  shows "t ''id'' = Some (JStr (uuidv4 calls)) \<and>
         t ''status'' = Some (with_default (JStr ''Idea'') (body ''status'')) \<and>
         s' = (Suc calls, tasks @ [t])"
proof -
  obtain r tasks' where c: "create E (uuidv4 calls) t1 t2 body tasks = (r, tasks')"
    by (cases "create E (uuidv4 calls) t1 t2 body tasks")
  with assms have "r = Response 201 (JObj t)" by (simp add: post_tasks_def)
  with c have "create E (uuidv4 calls) t1 t2 body tasks = (Response 201 (JObj t), tasks')" by simp
  from create_returns [OF this] assms c show ?thesis by (auto simp: post_tasks_def)
qed

lemma post_tasks_calls:
  assumes "post_tasks E t1 t2 body (calls, tasks) = (r, (calls', tasks'))"
  shows "calls \<le> calls'"
  using assms by (auto simp: post_tasks_def split: prod.splits if_splits)

lemma served_ids: "served E created s \<Longrightarrow> \<forall>c\<in>set created. \<exists>k<fst s. c ''id'' = Some (JStr (uuidv4 k))"
proof (induction rule: served.induct)
  case boot
  then show ?case by simp
next
  case (post_created created s t1 t2 body t s')
  obtain calls tasks where s: "s = (calls, tasks)" by (cases s)
  from post_tasks_created [OF post_created.hyps(2) [unfolded s]]
  have t: "t ''id'' = Some (JStr (uuidv4 calls))" and n: "fst s' = Suc calls" by simp_all
  show ?case
  proof
    fix c assume "c \<in> set (created @ [t])"
    then consider "c \<in> set created" | "c = t" by auto
    then show "\<exists>k<fst s'. c ''id'' = Some (JStr (uuidv4 k))"
    proof cases
      case 1
      with post_created.IH s obtain k where "k < calls" "c ''id'' = Some (JStr (uuidv4 k))"
        by auto
      with n show ?thesis by (auto intro: less_SucI)
    next
      case 2
      with t n show ?thesis by auto
    qed
  qed
next
  case (post_refused created s t1 t2 body r s')
  obtain calls tasks where s: "s = (calls, tasks)" by (cases s)
  obtain calls' tasks' where s': "s' = (calls', tasks')" by (cases s')
  from post_tasks_calls [OF post_refused.hyps(2) [unfolded s s']] have le: "calls \<le> calls'" .
  show ?case
  proof
    fix c assume "c \<in> set created"
    with post_refused.IH s obtain k where k: "k < calls" "c ''id'' = Some (JStr (uuidv4 k))"
      by auto
    from k(1) le have "k < calls'" by simp
    with k(2) s' show "\<exists>k<fst s'. c ''id'' = Some (JStr (uuidv4 k))" by auto
  qed
next
  case (put created calls tasks now i body r tasks')
  then show ?case by simp
next
  case (del created calls tasks i r tasks')
  then show ?case by simp
qed

text \<open>The first two creates of a run, with the ids the generator gives them.\<close>

lemma uuidv4_0: "uuidv4 0 = ''0''"
  by (simp add: uuidv4_def)

lemma uuidv4_1: "uuidv4 (Suc 0) = ''00''"
  by (simp add: uuidv4_def)

lemma create_first:
  "create sample_env ''0'' ''2024-01-01T00:00:00.000Z'' ''2024-01-01T00:00:00.000Z''
     [''title'' \<mapsto> JStr ''Write launch article'', ''assignee'' \<mapsto> JStr ''Ada''] [] =
   (Response 201 (JObj (launch_task(''id'' \<mapsto> JStr ''0''))), [launch_task(''id'' \<mapsto> JStr ''0'')])"
proof -
  have "new_task ''0'' ''2024-01-01T00:00:00.000Z'' ''2024-01-01T00:00:00.000Z''
          (Some (JStr ''Write launch article'')) (JStr []) (JStr ''Ada'') (JStr []) (JStr ''Idea'') =
        Some (launch_task(''id'' \<mapsto> JStr ''0''))"
    by (auto simp: new_task_def js_trim_def trim_def is_ws_def launch_task_def fun_eq_iff)
  then show ?thesis
    by (simp add: create_def Let_def with_default_def create_title_def create_description_def
        create_status_def create_dueDate_def valid_status_def VALID_STATUSES_def
        trim_def is_ws_def)
qed

lemma create_second:
  "create sample_env ''00'' ''2024-01-02T00:00:00.000Z'' ''2024-01-02T00:00:00.000Z''
     [''title'' \<mapsto> JStr ''Interview the crew''] [launch_task(''id'' \<mapsto> JStr ''0'')] =
   (Response 201 (JObj (crew_task(''id'' \<mapsto> JStr ''00''))),
    [launch_task(''id'' \<mapsto> JStr ''0''), crew_task(''id'' \<mapsto> JStr ''00'')])"
proof -
  have "new_task ''00'' ''2024-01-02T00:00:00.000Z'' ''2024-01-02T00:00:00.000Z''
          (Some (JStr ''Interview the crew'')) (JStr []) (JStr []) (JStr []) (JStr ''Idea'') =
        Some (crew_task(''id'' \<mapsto> JStr ''00''))"
    by (auto simp: new_task_def js_trim_def trim_def is_ws_def crew_task_def fun_eq_iff)
  then show ?thesis
    by (simp add: create_def Let_def with_default_def create_title_def create_description_def
        create_status_def create_dueDate_def valid_status_def VALID_STATUSES_def
        trim_def is_ws_def)
qed

lemma create_checks_first:
  "create_checks sample_env [''title'' \<mapsto> JStr ''Write launch article'', ''assignee'' \<mapsto> JStr ''Ada''] = Pass"
  by (simp add: create_checks_def with_default_def create_title_def create_description_def
      create_status_def create_dueDate_def valid_status_def VALID_STATUSES_def trim_def is_ws_def)

lemma create_checks_second:
  "create_checks sample_env [''title'' \<mapsto> JStr ''Interview the crew''] = Pass"
  by (simp add: create_checks_def with_default_def create_title_def create_description_def
      create_status_def create_dueDate_def valid_status_def VALID_STATUSES_def trim_def is_ws_def)

lemma post_first:
  "post_tasks sample_env ''2024-01-01T00:00:00.000Z'' ''2024-01-01T00:00:00.000Z''
     [''title'' \<mapsto> JStr ''Write launch article'', ''assignee'' \<mapsto> JStr ''Ada''] (0, []) =
   (Response 201 (JObj (launch_task(''id'' \<mapsto> JStr ''0''))),
    (Suc 0, [launch_task(''id'' \<mapsto> JStr ''0'')]))"
  by (simp add: post_tasks_def uuidv4_0 create_first create_checks_first)

lemma post_second:
  "post_tasks sample_env ''2024-01-02T00:00:00.000Z'' ''2024-01-02T00:00:00.000Z''
     [''title'' \<mapsto> JStr ''Interview the crew''] (Suc 0, [launch_task(''id'' \<mapsto> JStr ''0'')]) =
   (Response 201 (JObj (crew_task(''id'' \<mapsto> JStr ''00''))),
    (Suc (Suc 0), [launch_task(''id'' \<mapsto> JStr ''0''), crew_task(''id'' \<mapsto> JStr ''00'')]))"
  by (simp add: post_tasks_def uuidv4_1 create_second create_checks_second)

lemma served_first:
  "served sample_env [launch_task(''id'' \<mapsto> JStr ''0'')] (Suc 0, [launch_task(''id'' \<mapsto> JStr ''0'')])"
  using served.post_created [OF served.boot post_first] by simp

text \<open>
  In every state of a run the ids of the store are pairwise distinct, and each is one the
  generator has returned.
\<close>

lemma update_keeps_ids:
  assumes "update E now i body tasks = (r, tasks')"
  shows "map (\<lambda>t. t ''id'') tasks' = map (\<lambda>t. t ''id'') tasks"
proof (cases "code r = 200")
  case True
  then obtain b where "r = Response 200 b" by (cases r) simp
  with assms have u: "update E now i body tasks = (Response 200 b, tasks')" by simp
  from update_success [OF u] obtain n t' where
    n: "findIndex tasks i = Some n"
    and t: "trim_fields (merge_task now (tasks ! n) body) = Some t'"
    and s: "tasks' = tasks[n := t']" by blast
  from trim_fields_Some [OF t] have "t' ''id'' = (tasks ! n) ''id''"
    by (simp add: merge_task_def)
  then show ?thesis
    using findIndex_Some [OF n] s by (simp add: map_update list_update_same_conv)
next
  case False
  with assms update_failure_keeps_store [of E now i body tasks] show ?thesis by simp
qed

lemma delete_result:
  assumes "delete i tasks = (r, tasks')"
  shows "tasks' = tasks \<or> (\<exists>n. tasks' = take n tasks @ drop (Suc n) tasks)"
  using assms by (auto simp: delete_def Let_def split: option.splits)

lemma served_store_ids:
  "served E created s \<Longrightarrow>
     unique_ids (snd s) \<and> (\<forall>t\<in>set (snd s). \<exists>k<fst s. t ''id'' = Some (JStr (uuidv4 k)))"
proof (induction rule: served.induct)
  case boot
  then show ?case by (simp add: unique_ids_def)
next
  case (post_created created s t1 t2 body t s')
  obtain calls tasks where s: "s = (calls, tasks)" by (cases s)
  from post_tasks_created [OF post_created.hyps(2) [unfolded s]]
  have t: "t ''id'' = Some (JStr (uuidv4 calls))" and s': "s' = (Suc calls, tasks @ [t])"
    by simp_all
  from post_created.IH s have u: "unique_ids tasks"
    and b: "\<forall>p\<in>set tasks. \<exists>k<calls. p ''id'' = Some (JStr (uuidv4 k))" by simp_all
  have "t ''id'' \<notin> (\<lambda>p. p ''id'') ` set tasks"
  proof
    assume "t ''id'' \<in> (\<lambda>p. p ''id'') ` set tasks"
    then obtain p where "p \<in> set tasks" "p ''id'' = t ''id''" by auto
    moreover from this(1) b obtain k where "k < calls" "p ''id'' = Some (JStr (uuidv4 k))" by auto
    ultimately have "k < calls" "uuidv4 k = uuidv4 calls" using t by simp_all
    then show False by (simp add: uuidv4_inj)
  qed
  with u have "unique_ids (tasks @ [t])" by (simp add: unique_ids_def)
  moreover have "\<forall>p\<in>set (tasks @ [t]). \<exists>k<Suc calls. p ''id'' = Some (JStr (uuidv4 k))"
  proof
    fix p assume "p \<in> set (tasks @ [t])"
    then consider "p \<in> set tasks" | "p = t" by auto
    then show "\<exists>k<Suc calls. p ''id'' = Some (JStr (uuidv4 k))"
    proof cases
      case 1
      with b obtain k where "k < calls" "p ''id'' = Some (JStr (uuidv4 k))" by auto
      then show ?thesis by (auto intro: less_SucI)
    next
      case 2
      with t show ?thesis by auto
    qed
  qed
  ultimately show ?case by (simp add: s')
next
  case (post_refused created s t1 t2 body r s')
  obtain calls tasks where s: "s = (calls, tasks)" by (cases s)
  obtain calls' tasks' where s': "s' = (calls', tasks')" by (cases s')
  from post_tasks_calls [OF post_refused.hyps(2) [unfolded s s']] have le: "calls \<le> calls'" .
  from post_refused.hyps(2,3) s s' have "tasks' = tasks"
    using create_failure_keeps_store [of E "uuidv4 calls" t1 t2 body tasks]
    by (auto simp: post_tasks_def split: prod.splits)
  moreover have "\<forall>p\<in>set tasks. \<exists>k<calls'. p ''id'' = Some (JStr (uuidv4 k))"
  proof
    fix p assume "p \<in> set tasks"
    with post_refused.IH s obtain k where "k < calls" "p ''id'' = Some (JStr (uuidv4 k))"
      by auto
    with le show "\<exists>k<calls'. p ''id'' = Some (JStr (uuidv4 k))" by (auto intro: less_le_trans)
  qed
  ultimately show ?case using post_refused.IH s s' by simp
next
  case (put created calls tasks now i body r tasks')
  from update_keeps_ids [OF put.hyps(2)]
  have m: "map (\<lambda>t. t ''id'') tasks' = map (\<lambda>t. t ''id'') tasks" .
  then have im: "(\<lambda>t. t ''id'') ` set tasks' = (\<lambda>t. t ''id'') ` set tasks"
    by (metis set_map)
  from put.IH m have "unique_ids tasks'" by (simp add: unique_ids_def)
  moreover have "\<forall>p\<in>set tasks'. \<exists>k<calls. p ''id'' = Some (JStr (uuidv4 k))"
  proof
    fix p assume "p \<in> set tasks'"
    then have "p ''id'' \<in> (\<lambda>t. t ''id'') ` set tasks" unfolding im [symmetric] by (rule imageI)
    then obtain q where q: "q \<in> set tasks" "p ''id'' = q ''id''" by auto
    with put.IH obtain k where "k < calls" "q ''id'' = Some (JStr (uuidv4 k))" by auto
    with q(2) show "\<exists>k<calls. p ''id'' = Some (JStr (uuidv4 k))" by auto
  qed
  ultimately show ?case by simp
next
  case (del created calls tasks i r tasks')
  from delete_result [OF del.hyps(2)] show ?case
  proof
    assume "tasks' = tasks"
    with del.IH show ?thesis by simp
  next
    assume "\<exists>n. tasks' = take n tasks @ drop (Suc n) tasks"
    then obtain n where n: "tasks' = take n tasks @ drop (Suc n) tasks" ..
    from del.IH have "distinct (map (\<lambda>t. t ''id'') tasks)" by (simp add: unique_ids_def)
    then have "distinct (take n (map (\<lambda>t. t ''id'') tasks) @
        drop (Suc n) (map (\<lambda>t. t ''id'') tasks))"
      by (rule distinct_without_nth)
    then have "unique_ids tasks'" by (simp add: unique_ids_def n take_map drop_map)
    moreover have "set tasks' \<subseteq> set tasks"
      unfolding n by (auto dest: in_set_takeD in_set_dropD)
    ultimately show ?thesis using del.IH by (simp add: subset_iff)
  qed
qed

lemma create_crew_task:
  "create sample_env ''t2'' ''2024-01-02T00:00:00.000Z'' ''2024-01-02T00:00:00.000Z''
     [''title'' \<mapsto> JStr ''Interview the crew''] [launch_task] =
   (Response 201 (JObj crew_task), [launch_task, crew_task])"
  by (simp add: create_def Let_def with_default_def create_title_def create_description_def
      create_status_def create_dueDate_def valid_status_def VALID_STATUSES_def new_task_def
      js_trim_def crew_task_def trim_def is_ws_def)

section \<open>The claims\<close>

subsection \<open>Updating an unknown id\<close>

text \<open>
  C1. An update whose id no task of the store carries is answered with 404 and the body
  \<^verbatim>\<open>{error: "Task not found"}\<close>, whatever the payload, and the store afterwards is the store
  before: nothing added, removed or changed.
\<close>

theorem update_unknown_id:
  assumes "\<forall>t\<in>set tasks. t ''id'' \<noteq> Some (JStr i)"
  shows "update E now i body tasks = (Response 404 (error_body ''Task not found''), tasks)"
  using assms by (simp add: update_def findIndex_None_iff [symmetric] not_found_def)

text \<open>On the sample store, an update of the id \<^verbatim>\<open>t2\<close>, which it does not hold.\<close>

theorem update_unknown_id_witness:
  "launch_task ''id'' \<noteq> Some (JStr ''t2'') \<and>
   update sample_env ''2024-01-02T00:00:00.000Z'' ''t2'' [''status'' \<mapsto> JStr ''Editing'']
     [launch_task] = (Response 404 (error_body ''Task not found''), [launch_task])"
proof -
  have h: "\<forall>t\<in>set [launch_task]. t ''id'' \<noteq> Some (JStr ''t2'')"
    by (simp add: launch_task_def)
  from h update_unknown_id [OF h] show ?thesis by simp
qed

subsection \<open>Updating the status alone\<close>

lemma merge_status_only:
  "merge_task now t [''status'' \<mapsto> v] = t(''status'' \<mapsto> v, ''updatedAt'' \<mapsto> JStr now)"
  by (auto simp: merge_task_def fun_eq_iff map_add_def)

lemma validate_status_only:
  "st \<in> set VALID_STATUSES \<Longrightarrow> validate_update E [''status'' \<mapsto> JStr st] = Pass"
  by (simp add: validate_update_def check_title_def check_description_def check_status_def
      check_dueDate_def valid_status_def)

text \<open>
  C2. In a store the API has built, with its ids unique, take the task at any position \<open>n\<close>
  and update it by its id with a payload that holds a valid status and nothing else. The
  answer is 200 with the task in which \<^verbatim>\<open>status\<close> is the new status and \<^verbatim>\<open>updatedAt\<close> the
  time of the update; every other property of it (\<^verbatim>\<open>id\<close>, \<^verbatim>\<open>createdAt\<close>, \<^verbatim>\<open>title\<close>,
  \<^verbatim>\<open>description\<close>, \<^verbatim>\<open>assignee\<close>, \<^verbatim>\<open>dueDate\<close> and any other) is as before, and the store
  differs from the old one at position \<open>n\<close> only.
\<close>

theorem update_status_only:
  assumes "reachable E tasks" and "unique_ids tasks"
    and "n < length tasks" and "(tasks ! n) ''id'' = Some (JStr i)"
    and "st \<in> set VALID_STATUSES"
  shows "update E now i [''status'' \<mapsto> JStr st] tasks =
           (Response 200 (JObj ((tasks ! n)(''status'' \<mapsto> JStr st, ''updatedAt'' \<mapsto> JStr now))),
            tasks[n := (tasks ! n)(''status'' \<mapsto> JStr st, ''updatedAt'' \<mapsto> JStr now)])"
proof -
  let ?t' = "(tasks ! n)(''status'' \<mapsto> JStr st, ''updatedAt'' \<mapsto> JStr now)"
  have f: "findIndex tasks i = Some n" using assms(2-4) by (rule findIndex_unique)
  have "task_ok (tasks ! n)" using reachable_task_ok [OF assms(1)] assms(3) by simp
  then have "task_ok ?t'" by (simp add: task_ok_def)
  then have "trim_fields ?t' = Some ?t'" by (rule trim_fields_id)
  then show ?thesis
    using f validate_status_only [OF assms(5)] by (simp add: update_def merge_status_only)
qed

text \<open>The sample task moves to Editing.\<close>

theorem update_status_only_witness:
  "reachable sample_env [launch_task] \<and> unique_ids [launch_task] \<and>
   0 < length [launch_task] \<and> ([launch_task] ! 0) ''id'' = Some (JStr ''t1'') \<and>
   ''Editing'' \<in> set VALID_STATUSES \<and>
   update sample_env ''2024-01-02T00:00:00.000Z'' ''t1'' [''status'' \<mapsto> JStr ''Editing'']
     [launch_task] =
     (Response 200
        (JObj (launch_task(''status'' \<mapsto> JStr ''Editing'',
                           ''updatedAt'' \<mapsto> JStr ''2024-01-02T00:00:00.000Z''))),
      [launch_task(''status'' \<mapsto> JStr ''Editing'',
                   ''updatedAt'' \<mapsto> JStr ''2024-01-02T00:00:00.000Z'')])"
proof -
  have h3: "0 < length [launch_task]" by simp
  have h4: "([launch_task] ! 0) ''id'' = Some (JStr ''t1'')" by (simp add: launch_task_def)
  have h5: "''Editing'' \<in> set VALID_STATUSES" by (simp add: VALID_STATUSES_def)
  from update_status_only [OF reachable_launch_task unique_ids_launch_task h3 h4 h5,
      of "''2024-01-02T00:00:00.000Z''"]
    reachable_launch_task unique_ids_launch_task h4 h5
  show ?thesis by simp
qed

subsection \<open>The id and the status of a new task\<close>

text \<open>
  C3. In every run of the server, the task a successful create returns carries as its id
  the value the generator returned for that create, whatever the body holds, and that id
  differs from the id of every task a create of the run has returned before, deleted or
  not. When the body has no status, the status of the returned task is Idea. The route
  checks nothing about the id itself: that no id comes twice rests on the generator as
  modelled from the specification.
\<close>

theorem post_id_and_status:
  assumes "served E created s" and "post_tasks E t1 t2 body s = (Response 201 (JObj t), s')"
  shows "t ''id'' = Some (JStr (uuidv4 (fst s))) \<and> (\<forall>c\<in>set created. c ''id'' \<noteq> t ''id'') \<and>
         (body ''status'' = None \<longrightarrow> t ''status'' = Some (JStr ''Idea''))"
proof -
  obtain calls tasks where s: "s = (calls, tasks)" by (cases s)
  from post_tasks_created [OF assms(2) [unfolded s]]
  have i: "t ''id'' = Some (JStr (uuidv4 calls))"
    and st: "t ''status'' = Some (with_default (JStr ''Idea'') (body ''status''))" by simp_all
  have "\<forall>c\<in>set created. c ''id'' \<noteq> t ''id''"
  proof
    fix c assume "c \<in> set created"
    with served_ids [OF assms(1)] s obtain k where "k < calls" "c ''id'' = Some (JStr (uuidv4 k))"
      by auto
    with i show "c ''id'' \<noteq> t ''id''" by (simp add: uuidv4_inj)
  qed
  with i st s show ?thesis by (simp add: with_default_def)
qed

text \<open>The second create of a run, without a status.\<close>

theorem post_id_and_status_witness:
  "served sample_env [launch_task(''id'' \<mapsto> JStr ''0'')] (Suc 0, [launch_task(''id'' \<mapsto> JStr ''0'')]) \<and>
   post_tasks sample_env ''2024-01-02T00:00:00.000Z'' ''2024-01-02T00:00:00.000Z''
     [''title'' \<mapsto> JStr ''Interview the crew''] (Suc 0, [launch_task(''id'' \<mapsto> JStr ''0'')]) =
     (Response 201 (JObj (crew_task(''id'' \<mapsto> JStr ''00''))),
      (Suc (Suc 0), [launch_task(''id'' \<mapsto> JStr ''0''), crew_task(''id'' \<mapsto> JStr ''00'')])) \<and>
   [''title'' \<mapsto> JStr ''Interview the crew''] ''status'' = None \<and>
   (crew_task(''id'' \<mapsto> JStr ''00'')) ''id'' = Some (JStr ''00'') \<and>
   (launch_task(''id'' \<mapsto> JStr ''0'')) ''id'' \<noteq> (crew_task(''id'' \<mapsto> JStr ''00'')) ''id'' \<and>
   (crew_task(''id'' \<mapsto> JStr ''00'')) ''status'' = Some (JStr ''Idea'')"
proof -
  from post_id_and_status [OF served_first post_second] served_first post_second
  show ?thesis by (simp add: uuidv4_1)
qed

subsection \<open>A create without a usable title\<close>

text \<open>
  C4. A create whose body has no title, a title that is not a string, or a title that is
  empty once trimmed, is answered with 400 and the message that the title is required,
  and the store afterwards is the store before: nothing was appended.
\<close>

theorem create_rejects_bad_title:
  assumes "body ''title'' = None \<or> (\<forall>s. body ''title'' \<noteq> Some (JStr s)) \<or>
           (\<exists>s. body ''title'' = Some (JStr s) \<and> trim s = [])"
  shows "create E uuid t1 t2 body tasks =
           (Response 400 (error_body ''Title is required and must be a non-empty string''), tasks)"
proof -
  have "create_title (body ''title'') =
          Reject (bad_request ''Title is required and must be a non-empty string'')"
    using assms by (auto simp: create_title_def split: option.splits json.splits)
  then show ?thesis by (simp add: create_def Let_def bad_request_def)
qed

text \<open>A body without a title, one with the number 7 as title, and one with two blanks.\<close>

theorem create_rejects_bad_title_witness:
  "create sample_env ''t2'' ''2024-01-02T00:00:00.000Z'' ''2024-01-02T00:00:00.000Z''
     [''assignee'' \<mapsto> JStr ''Ada''] [launch_task] =
     (Response 400 (error_body ''Title is required and must be a non-empty string''),
      [launch_task]) \<and>
   create sample_env ''t2'' ''2024-01-02T00:00:00.000Z'' ''2024-01-02T00:00:00.000Z''
     [''title'' \<mapsto> JNum 7] [launch_task] =
     (Response 400 (error_body ''Title is required and must be a non-empty string''),
      [launch_task]) \<and>
   trim ''  '' = [] \<and>
   create sample_env ''t2'' ''2024-01-02T00:00:00.000Z'' ''2024-01-02T00:00:00.000Z''
     [''title'' \<mapsto> JStr ''  ''] [launch_task] =
     (Response 400 (error_body ''Title is required and must be a non-empty string''),
      [launch_task])"
proof -
  have a: "[''assignee'' \<mapsto> JStr ''Ada''] ''title'' = None \<or>
           (\<forall>s. [''assignee'' \<mapsto> JStr ''Ada''] ''title'' \<noteq> Some (JStr s)) \<or>
           (\<exists>s. [''assignee'' \<mapsto> JStr ''Ada''] ''title'' = Some (JStr s) \<and> trim s = [])"
    by simp
  have b: "[''title'' \<mapsto> JNum 7] ''title'' = None \<or>
           (\<forall>s. [''title'' \<mapsto> JNum 7] ''title'' \<noteq> Some (JStr s)) \<or>
           (\<exists>s. [''title'' \<mapsto> JNum 7] ''title'' = Some (JStr s) \<and> trim s = [])"
    by simp
  have t: "trim ''  '' = []" by (simp add: trim_def is_ws_def)
  then have c: "[''title'' \<mapsto> JStr ''  ''] ''title'' = None \<or>
           (\<forall>s. [''title'' \<mapsto> JStr ''  ''] ''title'' \<noteq> Some (JStr s)) \<or>
           (\<exists>s. [''title'' \<mapsto> JStr ''  ''] ''title'' = Some (JStr s) \<and> trim s = [])"
    by simp
  from create_rejects_bad_title [where body = "[''assignee'' \<mapsto> JStr ''Ada'']", OF a]
    create_rejects_bad_title [where body = "[''title'' \<mapsto> JNum 7]", OF b]
    create_rejects_bad_title [where body = "[''title'' \<mapsto> JStr ''  '']", OF c] t
  show ?thesis by blast
qed

subsection \<open>Listing with filters\<close>

text \<open>
  In a store whose tasks all have a string as assignee, the list route of the current
  server answers 200 with exactly the tasks that match the filters given, in the order
  of the store, and leaves the store alone. A filter that is absent or the empty string
  does not filter.
\<close>

lemma includes_assignee_strings:
  assumes "\<forall>t\<in>set ts. \<exists>a. t ''assignee'' = Some (JStr a)"
  shows "includes_assignee f ts =
           Some (filter (\<lambda>t. \<exists>a p q. t ''assignee'' = Some (JStr a) \<and>
                                 toLowerCase a = p @ toLowerCase f @ q) ts)"
  using assms
proof (induction ts)
  case Nil
  then show ?case by simp
next
  case (Cons t ts)
  then obtain a where a: "t ''assignee'' = Some (JStr a)" by auto
  from Cons have "includes_assignee f ts =
      Some (filter (\<lambda>t. \<exists>a p q. t ''assignee'' = Some (JStr a) \<and>
                            toLowerCase a = p @ toLowerCase f @ q) ts)" by simp
  with a show ?case by (simp add: str_includes_def sublist_def)
qed

lemma list_tasks_matches:
  assumes "\<forall>t\<in>set tasks. \<exists>a. t ''assignee'' = Some (JStr a)"
  shows "list_tasks status assignee tasks =
           (Response 200 (JArr (map JObj (filter (matches status assignee) tasks))), tasks)"
proof -
  have s: "filter_status status tasks =
             filter (\<lambda>t. \<forall>st. status = Some st \<longrightarrow> st \<noteq> [] \<longrightarrow> t ''status'' = Some (JStr st)) tasks"
    by (cases status) (simp_all add: filter_status_def)
  have "\<forall>t\<in>set (filter_status status tasks). \<exists>a. t ''assignee'' = Some (JStr a)"
    using assms by (simp add: s)
  then have a: "filter_assignee assignee (filter_status status tasks) =
      Some (filter (\<lambda>t. \<forall>f. assignee = Some f \<longrightarrow> f \<noteq> [] \<longrightarrow>
                      (\<exists>a p q. t ''assignee'' = Some (JStr a) \<and>
                               toLowerCase a = p @ toLowerCase f @ q))
              (filter_status status tasks))"
    by (cases assignee) (simp_all add: filter_assignee_def includes_assignee_strings)
  have "filter (matches status assignee) tasks =
          filter (\<lambda>t. \<forall>f. assignee = Some f \<longrightarrow> f \<noteq> [] \<longrightarrow>
                      (\<exists>a p q. t ''assignee'' = Some (JStr a) \<and>
                               toLowerCase a = p @ toLowerCase f @ q))
              (filter_status status tasks)"
    unfolding s filter_filter by (rule filter_cong [OF refl]) (auto simp: matches_def)
  with a show ?thesis by (simp add: list_tasks_def)
qed

lemma validate_update_assignee: "validate_update E [''assignee'' \<mapsto> v] = Pass"
  by (simp add: validate_update_def check_title_def check_description_def check_status_def
      check_dueDate_def)

lemma toLowerCase_Ada: "toLowerCase ''Ada'' = ''ada''"
  by code_simp

lemma toLowerCase_ada: "toLowerCase ''ada'' = ''ada''"
  by code_simp

text \<open>
  C5. The claim asks the list route, in every store state, for exactly the tasks whose
  assignee contains the filter in lower case. Two runs of the code do something else.
  The update route stores \<^verbatim>\<open>{assignee: null}\<close> on the sample task with 200, and in that
  store the current list route, asked for the assignee \<^verbatim>\<open>a\<close>, answers 500. The list
  route of the older server file, asked for \<^verbatim>\<open>ada\<close> in the sample store, returns no
  task, though the task's assignee \<^verbatim>\<open>Ada\<close> contains \<^verbatim>\<open>ada\<close> in lower case and the current
  route returns it.
\<close>

theorem list_tasks_breaks:
  "update sample_env ''2024-01-02T00:00:00.000Z'' ''t1'' [''assignee'' \<mapsto> JNull] [launch_task] =
     (Response 200
        (JObj (launch_task(''assignee'' \<mapsto> JNull,
                           ''updatedAt'' \<mapsto> JStr ''2024-01-02T00:00:00.000Z''))),
      [launch_task(''assignee'' \<mapsto> JNull, ''updatedAt'' \<mapsto> JStr ''2024-01-02T00:00:00.000Z'')]) \<and>
   list_tasks None (Some ''a'')
     [launch_task(''assignee'' \<mapsto> JNull, ''updatedAt'' \<mapsto> JStr ''2024-01-02T00:00:00.000Z'')] =
     (Response 500 (error_body ''Internal server error''),
      [launch_task(''assignee'' \<mapsto> JNull, ''updatedAt'' \<mapsto> JStr ''2024-01-02T00:00:00.000Z'')]) \<and>
   launch_task ''assignee'' = Some (JStr ''Ada'') \<and>
   str_includes (toLowerCase ''Ada'') (toLowerCase ''ada'') \<and>
   list_tasks None (Some ''ada'') [launch_task] =
     (Response 200 (JArr [JObj launch_task]), [launch_task]) \<and>
   list_tasks_v1 None (Some ''ada'') [launch_task] = (Response 200 (JArr []), [launch_task])"
proof -
  let ?t = "launch_task(''assignee'' \<mapsto> JNull, ''updatedAt'' \<mapsto> JStr ''2024-01-02T00:00:00.000Z'')"
  have m: "merge_task ''2024-01-02T00:00:00.000Z'' launch_task [''assignee'' \<mapsto> JNull] = ?t"
    by (auto simp: merge_task_def fun_eq_iff map_add_def)
  have "task_ok ?t" using task_ok_launch_task by (simp add: task_ok_def field_ok_def)
  then have a: "update sample_env ''2024-01-02T00:00:00.000Z'' ''t1'' [''assignee'' \<mapsto> JNull]
      [launch_task] = (Response 200 (JObj ?t), [?t])"
    using update_ok [OF findIndex_launch_task validate_update_assignee,
        of "''2024-01-02T00:00:00.000Z''" JNull sample_env]
    by (simp add: m)
  have b: "list_tasks None (Some ''a'') [?t] = (Response 500 (error_body ''Internal server error''), [?t])"
    by (simp add: list_tasks_def filter_status_def filter_assignee_def internal_error_def)
  have c: "launch_task ''assignee'' = Some (JStr ''Ada'')" by (simp add: launch_task_def)
  have d: "str_includes (toLowerCase ''Ada'') (toLowerCase ''ada'')"
    by (simp add: toLowerCase_Ada toLowerCase_ada str_includes_def)
  have e: "list_tasks None (Some ''ada'') [launch_task] =
      (Response 200 (JArr [JObj launch_task]), [launch_task])"
    using c d by (simp add: list_tasks_def filter_status_def filter_assignee_def)
  have f: "list_tasks_v1 None (Some ''ada'') [launch_task] = (Response 200 (JArr []), [launch_task])"
    by (simp add: list_tasks_v1_def filter_status_def filter_assignee_v1_def launch_task_def)
  from a b c d e f show ?thesis by blast
qed

subsection \<open>Deleting a task\<close>

text \<open>
  C6, as the code has it. A delete of an id that a task of the store carries is answered
  with 200 and a body of two properties, \<^verbatim>\<open>message\<close> and \<^verbatim>\<open>task\<close>: the message is
  \<^verbatim>\<open>Task deleted\<close>, and \<^verbatim>\<open>task\<close> is the first task of the store with that id (no task
  before it carries the id), which is the one taken out of the store.
\<close>

theorem delete_present:
  assumes "\<exists>t\<in>set tasks. t ''id'' = Some (JStr i)"
  shows "\<exists>n. n < length tasks \<and> (tasks ! n) ''id'' = Some (JStr i) \<and>
           (\<forall>j<n. (tasks ! j) ''id'' \<noteq> Some (JStr i)) \<and>
           delete i tasks =
             (Response 200
                (JObj [''message'' \<mapsto> JStr ''Task deleted'', ''task'' \<mapsto> JObj (tasks ! n)]),
              take n tasks @ drop (Suc n) tasks)"
proof -
  from assms have "findIndex tasks i \<noteq> None" by (simp add: findIndex_None_iff)
  then obtain n where n: "findIndex tasks i = Some n" by blast
  from n have "delete i tasks =
      (Response 200
         (JObj [''message'' \<mapsto> JStr ''Task deleted'', ''task'' \<mapsto> JObj (tasks ! n)]),
       take n tasks @ drop (Suc n) tasks)" by (simp add: delete_def)
  with findIndex_Some [OF n] show ?thesis by blast
qed

text \<open>
  A store of three tasks in which the second and the third carry the id \<^verbatim>\<open>t1\<close>: the
  second is the one returned and removed.
\<close>

theorem delete_present_witness:
  "launch_task ''id'' = Some (JStr ''t1'') \<and>
   (crew_task(''id'' \<mapsto> JStr ''t1'')) ''id'' = Some (JStr ''t1'') \<and>
   delete ''t1'' [crew_task, launch_task, crew_task(''id'' \<mapsto> JStr ''t1'')] =
     (Response 200 (JObj [''message'' \<mapsto> JStr ''Task deleted'', ''task'' \<mapsto> JObj launch_task]),
      [crew_task, crew_task(''id'' \<mapsto> JStr ''t1'')])"
proof -
  let ?ts = "[crew_task, launch_task, crew_task(''id'' \<mapsto> JStr ''t1'')]"
  have i: "launch_task ''id'' = Some (JStr ''t1'')" by (simp add: launch_task_def)
  have c: "crew_task ''id'' \<noteq> Some (JStr ''t1'')" by (simp add: crew_task_def)
  from i have h: "\<exists>t\<in>set ?ts. t ''id'' = Some (JStr ''t1'')" by simp
  from delete_present [OF h] obtain n where n: "n < length ?ts"
    and a: "(?ts ! n) ''id'' = Some (JStr ''t1'')"
    and f: "\<forall>j<n. (?ts ! j) ''id'' \<noteq> Some (JStr ''t1'')"
    and d: "delete ''t1'' ?ts =
      (Response 200
         (JObj [''message'' \<mapsto> JStr ''Task deleted'', ''task'' \<mapsto> JObj (?ts ! n)]),
       take n ?ts @ drop (Suc n) ?ts)" by blast
  from n have "n = 0 \<or> n = 1 \<or> n = 2" by auto
  moreover have "n \<noteq> 0"
  proof
    assume "n = 0"
    with a c show False by simp
  qed
  moreover have "n \<noteq> 2"
  proof
    assume "n = 2"
    with f have "(1::nat) < 2 \<longrightarrow> (?ts ! 1) ''id'' \<noteq> Some (JStr ''t1'')" by blast
    then have "(?ts ! 1) ''id'' \<noteq> Some (JStr ''t1'')" by simp
    with i show False by simp
  qed
  ultimately have "n = 1" by simp
  with d i show ?thesis by simp
qed

text \<open>
  The claim as the specification words it fails on a delete of the sample task: the body has no
  property \<^verbatim>\<open>deletedTask\<close>; the removed task is under \<^verbatim>\<open>task\<close>.
\<close>

theorem delete_body_has_no_deletedTask:
  "property (payload (fst (delete ''t1'' [launch_task]))) ''deletedTask'' = None \<and>
   property (payload (fst (delete ''t1'' [launch_task]))) ''task'' = Some (JObj launch_task)"
  by (simp add: delete_def property_def launch_task_def)

subsection \<open>Stored text is trimmed\<close>

text \<open>
  C7, as the code has it. In every store the API can reach, the title, the description,
  the assignee and the status of every task, when they are strings, carry no white space
  at either end. The first three are the fields both writing routes trim; the status is
  one of the seven stages.
\<close>

theorem stored_text_trimmed:
  assumes "reachable E tasks" and "t \<in> set tasks"
    and "k \<in> {''title'', ''description'', ''assignee'', ''status''}"
    and "t k = Some (JStr s)"
  shows "trimmed s"
proof (cases "k = ''status''")
  case True
  from reachable_status_ok [OF assms(1)] assms(2) have "status_ok t" by blast
  with True assms(4) have "valid_status (JStr s)" by (simp add: status_ok_def)
  then show ?thesis by (rule valid_status_trimmed)
next
  case False
  from reachable_task_ok [OF assms(1)] assms(2) have "task_ok t" by blast
  with False assms(3,4) have "trim s = s" by (auto simp: task_ok_def field_ok_def)
  then show ?thesis by (simp add: trimmed_iff)
qed

text \<open>The title of the sample task.\<close>

theorem stored_text_trimmed_witness:
  "reachable sample_env [launch_task] \<and> launch_task \<in> set [launch_task] \<and>
   ''title'' \<in> {''title'', ''description'', ''assignee'', ''status''} \<and>
   launch_task ''title'' = Some (JStr ''Write launch article'') \<and>
   trimmed ''Write launch article''"
proof -
  have h2: "launch_task \<in> set [launch_task]" by simp
  have h3: "''title'' \<in> {''title'', ''description'', ''assignee'', ''status''}" by simp
  have h4: "launch_task ''title'' = Some (JStr ''Write launch article'')"
    by (simp add: launch_task_def)
  from stored_text_trimmed [OF reachable_launch_task h2 h3 h4] reachable_launch_task h2 h4
  show ?thesis by simp
qed

lemma validate_update_note: "validate_update E [''note'' \<mapsto> v] = Pass"
  by (simp add: validate_update_def check_title_def check_description_def check_status_def
      check_dueDate_def)

lemma update_note:
  "update sample_env ''2024-01-02T00:00:00.000Z'' ''t1'' [''note'' \<mapsto> JStr '' call Ada''] [launch_task] =
     (Response 200
        (JObj (launch_task(''note'' \<mapsto> JStr '' call Ada'',
                           ''updatedAt'' \<mapsto> JStr ''2024-01-02T00:00:00.000Z''))),
      [launch_task(''note'' \<mapsto> JStr '' call Ada'',
                   ''updatedAt'' \<mapsto> JStr ''2024-01-02T00:00:00.000Z'')])"
proof -
  let ?t = "launch_task(''note'' \<mapsto> JStr '' call Ada'',
                        ''updatedAt'' \<mapsto> JStr ''2024-01-02T00:00:00.000Z'')"
  have m: "merge_task ''2024-01-02T00:00:00.000Z'' launch_task [''note'' \<mapsto> JStr '' call Ada''] = ?t"
    by (auto simp: merge_task_def fun_eq_iff map_add_def)
  have "task_ok ?t" using task_ok_launch_task by (simp add: task_ok_def)
  then show ?thesis
    using update_ok [OF findIndex_launch_task validate_update_note,
        of "''2024-01-02T00:00:00.000Z''" "JStr '' call Ada''" sample_env]
    by (simp add: m)
qed

text \<open>
  The claim for every string field fails in a store the API reaches in two steps: a
  create, then an update whose payload holds \<^verbatim>\<open>note\<close> with a leading blank. The task is
  stored with the note as it came.
\<close>

theorem stored_note_untrimmed:
  "reachable sample_env
     [launch_task(''note'' \<mapsto> JStr '' call Ada'',
                  ''updatedAt'' \<mapsto> JStr ''2024-01-02T00:00:00.000Z'')] \<and>
   (launch_task(''note'' \<mapsto> JStr '' call Ada'',
                ''updatedAt'' \<mapsto> JStr ''2024-01-02T00:00:00.000Z'')) ''note'' =
     Some (JStr '' call Ada'') \<and>
   \<not> trimmed '' call Ada''"
proof -
  have "reachable sample_env
     [launch_task(''note'' \<mapsto> JStr '' call Ada'',
                  ''updatedAt'' \<mapsto> JStr ''2024-01-02T00:00:00.000Z'')]"
    using reachable.after_update [OF reachable_launch_task update_note] .
  then show ?thesis by (simp add: trimmed_def is_ws_def)
qed

text \<open>
  The due date is not trimmed either: a create that succeeds stores it as it came. Whether
  a padded date gets that far is up to \<^verbatim>\<open>Date.parse\<close>.
\<close>

lemma create_stores_dueDate_as_received:
  assumes "create E uuid t1 t2 body tasks = (Response 201 (JObj t), tasks')"
  shows "t ''dueDate'' = Some (with_default (JStr []) (body ''dueDate''))"
proof -
  from create_success [OF assms] obtain nt where
    nt: "new_task uuid t1 t2 (body ''title'') (with_default (JStr []) (body ''description''))
           (with_default (JStr []) (body ''assignee'')) (with_default (JStr []) (body ''dueDate''))
           (with_default (JStr ''Idea'') (body ''status'')) = Some nt"
    and "JObj t = JObj nt" by blast
  then have "t = nt" by simp
  with new_task_Some [OF nt] show ?thesis by auto
qed

subsection \<open>Dropping a card on its own column\<close>

text \<open>
  In \<^verbatim>\<open>project_management_app.jsx\<close> a drop of a card of the local list sends an update
  exactly when the column's status is not the task's, and then the payload is the status
  alone.
\<close>

lemma handleDrop_guarded:
  assumes "find (\<lambda>t. t ''id'' = Some (JStr d)) tasks = Some task" and "d \<noteq> []"
  shows "handleDrop tasks (handleDragStart d) status =
           (if task ''status'' = Some (JStr status) then []
            else [PUT d [''status'' \<mapsto> JStr status]], None)"
  using assms by (simp add: handleDrop_def handleDragStart_def updateTaskStatus_def)

text \<open>In \<^verbatim>\<open>App.jsx\<close> every drop sends one.\<close>

lemma App_handleDrop_always:
  "\<exists>body. App_handleDrop tasks taskId status = [PUT taskId body]"
  by (simp add: App_handleDrop_def App_updateTaskStatus_def Let_def)

text \<open>
  C8. The claim allows no update for a drop on the task's own column. The sample task is
  in the Idea column; dropped on Idea, \<^verbatim>\<open>App.jsx\<close> sends a \<^verbatim>\<open>PUT\<close> with the whole task,
  where \<^verbatim>\<open>project_management_app.jsx\<close> sends nothing.
\<close>

theorem App_handleDrop_same_column:
  "launch_task ''status'' = Some (JStr ''Idea'') \<and>
   App_handleDrop [launch_task] ''t1'' ''Idea'' = [PUT ''t1'' launch_task] \<and>
   handleDrop [launch_task] (handleDragStart ''t1'') ''Idea'' = ([], None)"
proof -
  have s: "launch_task ''status'' = Some (JStr ''Idea'')" by (simp add: launch_task_def)
  have i: "launch_task ''id'' = Some (JStr ''t1'')" by (simp add: launch_task_def)
  have "launch_task(''status'' \<mapsto> JStr ''Idea'') = launch_task"
    using s by (simp add: fun_upd_idem)
  with i have a: "App_handleDrop [launch_task] ''t1'' ''Idea'' = [PUT ''t1'' launch_task]"
    by (simp add: App_handleDrop_def App_updateTaskStatus_def)
  have "find (\<lambda>t. t ''id'' = Some (JStr ''t1'')) [launch_task] = Some launch_task"
    using i by simp
  from handleDrop_guarded [OF this, of "''Idea''"] s
  have b: "handleDrop [launch_task] (handleDragStart ''t1'') ''Idea'' = ([], None)" by simp
  from s a b show ?thesis by blast
qed

subsection \<open>Properties the update route does not know\<close>

text \<open>
  C9, as the code has it. When an update succeeds and its payload holds a property that is
  none of \<^verbatim>\<open>title\<close>, \<^verbatim>\<open>description\<close>, \<^verbatim>\<open>assignee\<close>, \<^verbatim>\<open>dueDate\<close>, \<^verbatim>\<open>status\<close>, \<^verbatim>\<open>id\<close>,
  \<^verbatim>\<open>createdAt\<close> and \<^verbatim>\<open>updatedAt\<close>, the task that is returned and stored in place of the
  first task with that id holds that property with the payload's value. Its \<^verbatim>\<open>id\<close> and
  its \<^verbatim>\<open>createdAt\<close> are those of the task before the update and its \<^verbatim>\<open>updatedAt\<close> is the
  time of the update, whatever the payload holds under these three names.
\<close>

theorem update_keeps_extra_key:
  assumes "update E now i body tasks = (Response 200 b, tasks')" and "body k = Some v"
    and "k \<notin> {''title'', ''description'', ''assignee'', ''dueDate'', ''status'',
               ''id'', ''createdAt'', ''updatedAt''}"
  shows "\<exists>n t'. n < length tasks \<and> (tasks ! n) ''id'' = Some (JStr i) \<and>
           (\<forall>j<n. (tasks ! j) ''id'' \<noteq> Some (JStr i)) \<and>
           b = JObj t' \<and> tasks' = tasks[n := t'] \<and> tasks' ! n = t' \<and> t' k = Some v \<and>
           t' ''id'' = (tasks ! n) ''id'' \<and> t' ''createdAt'' = (tasks ! n) ''createdAt'' \<and>
           t' ''updatedAt'' = Some (JStr now)"
proof -
  from update_success [OF assms(1)] obtain n t' where
    n: "findIndex tasks i = Some n"
    and t: "trim_fields (merge_task now (tasks ! n) body) = Some t'"
    and b: "b = JObj t'" and s: "tasks' = tasks[n := t']" by blast
  from trim_fields_Some [OF t]
  have same: "\<And>k. k \<noteq> ''title'' \<Longrightarrow> k \<noteq> ''description'' \<Longrightarrow> k \<noteq> ''assignee''
                 \<Longrightarrow> t' k = merge_task now (tasks ! n) body k" by simp
  from same [of k] assms(2,3) have k: "t' k = Some v" by (simp add: merge_task_def)
  from same [of "''id''"] have i: "t' ''id'' = (tasks ! n) ''id''" by (simp add: merge_task_def)
  from same [of "''createdAt''"] have c: "t' ''createdAt'' = (tasks ! n) ''createdAt''"
    by (simp add: merge_task_def)
  from same [of "''updatedAt''"] have u: "t' ''updatedAt'' = Some (JStr now)"
    by (simp add: merge_task_def)
  from findIndex_Some [OF n] b s k i c u
  have "n < length tasks \<and> (tasks ! n) ''id'' = Some (JStr i) \<and>
        (\<forall>j<n. (tasks ! j) ''id'' \<noteq> Some (JStr i)) \<and>
        b = JObj t' \<and> tasks' = tasks[n := t'] \<and> tasks' ! n = t' \<and> t' k = Some v \<and>
        t' ''id'' = (tasks ! n) ''id'' \<and> t' ''createdAt'' = (tasks ! n) ''createdAt'' \<and>
        t' ''updatedAt'' = Some (JStr now)" by simp
  then show ?thesis by blast
qed

lemma validate_update_note_id:
  "validate_update E [''note'' \<mapsto> v, ''id'' \<mapsto> w, ''createdAt'' \<mapsto> x] = Pass"
  by (simp add: validate_update_def check_title_def check_description_def check_status_def
      check_dueDate_def)

lemma update_note_id:
  "update sample_env ''2024-01-02T00:00:00.000Z'' ''t1''
     [''note'' \<mapsto> JStr '' call Ada'', ''id'' \<mapsto> JStr ''t9'',
      ''createdAt'' \<mapsto> JStr ''1999-12-31T00:00:00.000Z''] [launch_task] =
     (Response 200
        (JObj (launch_task(''note'' \<mapsto> JStr '' call Ada'',
                           ''updatedAt'' \<mapsto> JStr ''2024-01-02T00:00:00.000Z''))),
      [launch_task(''note'' \<mapsto> JStr '' call Ada'',
                   ''updatedAt'' \<mapsto> JStr ''2024-01-02T00:00:00.000Z'')])"
proof -
  let ?t = "launch_task(''note'' \<mapsto> JStr '' call Ada'',
                        ''updatedAt'' \<mapsto> JStr ''2024-01-02T00:00:00.000Z'')"
  have m: "merge_task ''2024-01-02T00:00:00.000Z'' launch_task
             [''note'' \<mapsto> JStr '' call Ada'', ''id'' \<mapsto> JStr ''t9'',
              ''createdAt'' \<mapsto> JStr ''1999-12-31T00:00:00.000Z''] = ?t"
    by (auto simp: merge_task_def fun_eq_iff map_add_def)
  have "task_ok ?t" using task_ok_launch_task by (simp add: task_ok_def)
  then show ?thesis
    using update_ok [OF findIndex_launch_task validate_update_note_id,
        of "''2024-01-02T00:00:00.000Z''" "JStr '' call Ada''" "JStr ''t9''"
          "JStr ''1999-12-31T00:00:00.000Z''" sample_env]
    by (simp add: m)
qed

text \<open>
  The update of the sample task with a \<^verbatim>\<open>note\<close>, an \<^verbatim>\<open>id\<close> and a \<^verbatim>\<open>createdAt\<close> in the
  payload.
\<close>

theorem update_keeps_extra_key_witness:
  "update sample_env ''2024-01-02T00:00:00.000Z'' ''t1''
     [''note'' \<mapsto> JStr '' call Ada'', ''id'' \<mapsto> JStr ''t9'',
      ''createdAt'' \<mapsto> JStr ''1999-12-31T00:00:00.000Z''] [launch_task] =
     (Response 200
        (JObj (launch_task(''note'' \<mapsto> JStr '' call Ada'',
                           ''updatedAt'' \<mapsto> JStr ''2024-01-02T00:00:00.000Z''))),
      [launch_task(''note'' \<mapsto> JStr '' call Ada'',
                   ''updatedAt'' \<mapsto> JStr ''2024-01-02T00:00:00.000Z'')]) \<and>
   [''note'' \<mapsto> JStr '' call Ada'', ''id'' \<mapsto> JStr ''t9'',
    ''createdAt'' \<mapsto> JStr ''1999-12-31T00:00:00.000Z''] ''note'' = Some (JStr '' call Ada'') \<and>
   ''note'' \<notin> {''title'', ''description'', ''assignee'', ''dueDate'', ''status'',
                ''id'', ''createdAt'', ''updatedAt''} \<and>
   (launch_task(''note'' \<mapsto> JStr '' call Ada'',
                ''updatedAt'' \<mapsto> JStr ''2024-01-02T00:00:00.000Z'')) ''note'' =
     Some (JStr '' call Ada'') \<and>
   (launch_task(''note'' \<mapsto> JStr '' call Ada'',
                ''updatedAt'' \<mapsto> JStr ''2024-01-02T00:00:00.000Z'')) ''id'' = Some (JStr ''t1'') \<and>
   (launch_task(''note'' \<mapsto> JStr '' call Ada'',
                ''updatedAt'' \<mapsto> JStr ''2024-01-02T00:00:00.000Z'')) ''createdAt'' =
     Some (JStr ''2024-01-01T00:00:00.000Z'') \<and>
   (launch_task(''note'' \<mapsto> JStr '' call Ada'',
                ''updatedAt'' \<mapsto> JStr ''2024-01-02T00:00:00.000Z'')) ''updatedAt'' =
     Some (JStr ''2024-01-02T00:00:00.000Z'')"
proof -
  let ?body = "[''note'' \<mapsto> JStr '' call Ada'', ''id'' \<mapsto> JStr ''t9'',
                ''createdAt'' \<mapsto> JStr ''1999-12-31T00:00:00.000Z'']"
  let ?t = "launch_task(''note'' \<mapsto> JStr '' call Ada'',
                        ''updatedAt'' \<mapsto> JStr ''2024-01-02T00:00:00.000Z'')"
  have h2: "?body ''note'' = Some (JStr '' call Ada'')" by simp
  have h3: "''note'' \<notin> {''title'', ''description'', ''assignee'', ''dueDate'', ''status'',
                ''id'', ''createdAt'', ''updatedAt''}" by simp
  from update_keeps_extra_key [where body = ?body, OF update_note_id h2 h3]
  obtain n t' where n: "n < length [launch_task]" and b: "JObj ?t = JObj t'"
    and k: "t' ''note'' = Some (JStr '' call Ada'')"
    and i: "t' ''id'' = ([launch_task] ! n) ''id''"
    and c: "t' ''createdAt'' = ([launch_task] ! n) ''createdAt''"
    and u: "t' ''updatedAt'' = Some (JStr ''2024-01-02T00:00:00.000Z'')" by blast
  from n have n0: "n = 0" by simp
  from b have t: "t' = ?t" by simp
  have "launch_task ''id'' = Some (JStr ''t1'')"
    and "launch_task ''createdAt'' = Some (JStr ''2024-01-01T00:00:00.000Z'')"
    by (simp_all add: launch_task_def)
  with k i c u n0 t update_note_id h2 h3 show ?thesis by simp
qed

lemma validate_update_updatedAt: "validate_update E [''updatedAt'' \<mapsto> v] = Pass"
  by (simp add: validate_update_def check_title_def check_description_def check_status_def
      check_dueDate_def)

text \<open>
  The claim names \<^verbatim>\<open>id\<close> and \<^verbatim>\<open>createdAt\<close> as the only properties outside the five
  fields that the payload cannot set. \<^verbatim>\<open>updatedAt\<close> is a third: an update that succeeds
  with \<^verbatim>\<open>updatedAt\<close> in its payload stores the time of the update, not the payload's value.
\<close>

theorem update_overwrites_updatedAt:
  "update sample_env ''2024-01-02T00:00:00.000Z'' ''t1''
     [''updatedAt'' \<mapsto> JStr ''1999-12-31T00:00:00.000Z''] [launch_task] =
     (Response 200 (JObj (launch_task(''updatedAt'' \<mapsto> JStr ''2024-01-02T00:00:00.000Z''))),
      [launch_task(''updatedAt'' \<mapsto> JStr ''2024-01-02T00:00:00.000Z'')]) \<and>
   (launch_task(''updatedAt'' \<mapsto> JStr ''2024-01-02T00:00:00.000Z'')) ''updatedAt'' \<noteq>
     Some (JStr ''1999-12-31T00:00:00.000Z'')"
proof -
  let ?t = "launch_task(''updatedAt'' \<mapsto> JStr ''2024-01-02T00:00:00.000Z'')"
  have m: "merge_task ''2024-01-02T00:00:00.000Z'' launch_task
             [''updatedAt'' \<mapsto> JStr ''1999-12-31T00:00:00.000Z''] = ?t"
    by (auto simp: merge_task_def fun_eq_iff map_add_def)
  have "task_ok ?t" using task_ok_launch_task by (simp add: task_ok_def)
  then show ?thesis
    using update_ok [OF findIndex_launch_task validate_update_updatedAt,
        of "''2024-01-02T00:00:00.000Z''" "JStr ''1999-12-31T00:00:00.000Z''" sample_env]
    by (simp add: m)
qed

subsection \<open>The title limit counts the title as it came\<close>

lemma create_long_title:
  assumes "body ''title'' = Some (JStr s)" and "200 < length s"
  shows "code (fst (create E uuid t1 t2 body tasks)) = 400 \<and>
         snd (create E uuid t1 t2 body tasks) = tasks"
proof -
  have "\<exists>r. create_title (body ''title'') = Reject r"
    using assms by (simp add: create_title_def)
  then obtain r where r: "create_title (body ''title'') = Reject r" ..
  then have "code r = 400" by (rule create_title_Reject)
  with r show ?thesis by (simp add: create_def Let_def)
qed

lemma update_long_title:
  assumes "findIndex tasks i = Some n" and "body ''title'' = Some (JStr s)" and "200 < length s"
  shows "code (fst (update E now i body tasks)) = 400 \<and>
         snd (update E now i body tasks) = tasks"
proof -
  have "\<exists>r. check_title (body ''title'') = Reject r"
    using assms by (simp add: check_title_def)
  then obtain r where r: "check_title (body ''title'') = Reject r" ..
  then have "code r = 400" by (rule check_title_Reject)
  with r assms(1) show ?thesis by (simp add: update_def validate_update_def)
qed

text \<open>
  C10. A create whose title is a string of more than 200 code units is answered with 400
  and stores nothing, also when the title trimmed has 200 or fewer; and so is an update of
  a task the store holds.
\<close>

theorem title_limit_before_trim:
  assumes "body ''title'' = Some (JStr s)" and "200 < length s" and "length (trim s) \<le> 200"
  shows "code (fst (create E uuid t1 t2 body tasks)) = 400 \<and>
         snd (create E uuid t1 t2 body tasks) = tasks \<and>
         (\<forall>n. findIndex tasks i = Some n \<longrightarrow>
            code (fst (update E now i body tasks)) = 400 \<and>
            snd (update E now i body tasks) = tasks)"
  using create_long_title [where body = body, OF assms(1,2)]
    update_long_title [where body = body, OF _ assms(1,2)] by blast

text \<open>Two hundred letters and a blank, sent to both routes.\<close>

theorem title_limit_before_trim_witness:
  "[''title'' \<mapsto> JStr padded_title] ''title'' = Some (JStr padded_title) \<and>
   200 < length padded_title \<and> length (trim padded_title) \<le> 200 \<and>
   findIndex [launch_task] ''t1'' = Some 0 \<and>
   code (fst (create sample_env ''t2'' ''2024-01-02T00:00:00.000Z'' ''2024-01-02T00:00:00.000Z''
                [''title'' \<mapsto> JStr padded_title] [launch_task])) = 400 \<and>
   snd (create sample_env ''t2'' ''2024-01-02T00:00:00.000Z'' ''2024-01-02T00:00:00.000Z''
          [''title'' \<mapsto> JStr padded_title] [launch_task]) = [launch_task] \<and>
   code (fst (update sample_env ''2024-01-02T00:00:00.000Z'' ''t1''
                [''title'' \<mapsto> JStr padded_title] [launch_task])) = 400 \<and>
   snd (update sample_env ''2024-01-02T00:00:00.000Z'' ''t1''
          [''title'' \<mapsto> JStr padded_title] [launch_task]) = [launch_task]"
proof -
  have h1: "[''title'' \<mapsto> JStr padded_title] ''title'' = Some (JStr padded_title)" by simp
  have h2: "200 < length padded_title" by (simp add: padded_title_def)
  have h3: "length (trim padded_title) \<le> 200" by (simp add: trim_padded_title)
  from title_limit_before_trim [where body = "[''title'' \<mapsto> JStr padded_title]"
      and E = sample_env and uuid = "''t2''" and ?t1.0 = "''2024-01-02T00:00:00.000Z''"
      and ?t2.0 = "''2024-01-02T00:00:00.000Z''" and tasks = "[launch_task]" and i = "''t1''"
      and now = "''2024-01-02T00:00:00.000Z''", OF h1 h2 h3]
    h1 h2 h3 findIndex_launch_task
  show ?thesis by simp
qed

end
